theory Spec2Isabelle
  imports Complex_Main
begin

section \<open>JavaScript numbers and values\<close>

text \<open>
  The fraud detection service computes on JavaScript numbers. A finite number is
  modelled by the real it denotes; the three special values that a division can
  produce are kept, so that a division by zero is a value of the model and not an
  unspecified term. The operations below are the exact ones (the sign of zero is left
  out); the rounded operations follow them.
\<close>

datatype jsnum = Fin real | PInf | NInf | NaN

fun js_neg :: "jsnum \<Rightarrow> jsnum" where
  "js_neg (Fin a) = Fin (- a)"
| "js_neg PInf = NInf"
| "js_neg NInf = PInf"
| "js_neg NaN = NaN"

fun js_add :: "jsnum \<Rightarrow> jsnum \<Rightarrow> jsnum" where
  "js_add NaN _ = NaN"
| "js_add _ NaN = NaN"
| "js_add (Fin a) (Fin b) = Fin (a + b)"
| "js_add PInf NInf = NaN"
| "js_add NInf PInf = NaN"
| "js_add PInf _ = PInf"
| "js_add _ PInf = PInf"
| "js_add NInf _ = NInf"
| "js_add _ NInf = NInf"

definition js_sub :: "jsnum \<Rightarrow> jsnum \<Rightarrow> jsnum" where
  "js_sub a b = js_add a (js_neg b)"

text \<open>The sign of an infinite product or quotient: \<open>inf_signed True\<close> is \<open>+Infinity\<close>.\<close>

definition inf_signed :: "bool \<Rightarrow> jsnum" where
  "inf_signed pos = (if pos then PInf else NInf)"

fun js_mul :: "jsnum \<Rightarrow> jsnum \<Rightarrow> jsnum" where
  "js_mul NaN _ = NaN"
| "js_mul _ NaN = NaN"
| "js_mul (Fin a) (Fin b) = Fin (a * b)"
| "js_mul (Fin a) PInf = (if a = 0 then NaN else inf_signed (0 < a))"
| "js_mul (Fin a) NInf = (if a = 0 then NaN else inf_signed (a < 0))"
| "js_mul PInf (Fin b) = (if b = 0 then NaN else inf_signed (0 < b))"
| "js_mul NInf (Fin b) = (if b = 0 then NaN else inf_signed (b < 0))"
| "js_mul PInf PInf = PInf"
| "js_mul NInf NInf = PInf"
| "js_mul PInf NInf = NInf"
| "js_mul NInf PInf = NInf"

text \<open>
  Division: a finite number divided by zero is \<open>+Infinity\<close> or \<open>-Infinity\<close> by the sign
  of the numerator, and \<open>0 / 0\<close> is \<open>NaN\<close> (the zero of the model is \<open>+0\<close>, which is
  what a difference of two equal numbers gives).
\<close>

fun js_div :: "jsnum \<Rightarrow> jsnum \<Rightarrow> jsnum" where
  "js_div NaN _ = NaN"
| "js_div _ NaN = NaN"
| "js_div (Fin a) (Fin b) =
     (if b = 0 then (if a = 0 then NaN else inf_signed (0 < a)) else Fin (a / b))"
| "js_div (Fin a) PInf = Fin 0"
| "js_div (Fin a) NInf = Fin 0"
| "js_div PInf (Fin b) = inf_signed (0 \<le> b)"
| "js_div NInf (Fin b) = inf_signed (b < 0)"
| "js_div PInf PInf = NaN"
| "js_div PInf NInf = NaN"
| "js_div NInf PInf = NaN"
| "js_div NInf NInf = NaN"

text \<open>Comparisons with \<open>NaN\<close> are false; \<open>===\<close> on numbers is false on \<open>NaN\<close>.\<close>

fun js_lt :: "jsnum \<Rightarrow> jsnum \<Rightarrow> bool" where
  "js_lt NaN _ = False"
| "js_lt _ NaN = False"
| "js_lt (Fin a) (Fin b) = (a < b)"
| "js_lt NInf NInf = False"
| "js_lt NInf _ = True"
| "js_lt _ NInf = False"
| "js_lt PInf _ = False"
| "js_lt _ PInf = True"

definition js_gt :: "jsnum \<Rightarrow> jsnum \<Rightarrow> bool" where
  "js_gt a b = js_lt b a"

definition js_seq :: "jsnum \<Rightarrow> jsnum \<Rightarrow> bool" where
  "js_seq a b = (a \<noteq> NaN \<and> b \<noteq> NaN \<and> a = b)"

text \<open>\<open>Math.min\<close> and \<open>Math.max\<close> of two arguments, and \<open>Math.max(...xs)\<close>
  (\<open>-Infinity\<close> on no argument, \<open>NaN\<close> as soon as one argument is \<open>NaN\<close>).\<close>

definition js_min :: "jsnum \<Rightarrow> jsnum \<Rightarrow> jsnum" where
  "js_min a b = (if a = NaN \<or> b = NaN then NaN else if js_lt b a then b else a)"

definition js_max :: "jsnum \<Rightarrow> jsnum \<Rightarrow> jsnum" where
  "js_max a b = (if a = NaN \<or> b = NaN then NaN else if js_lt a b then b else a)"

definition Math_max :: "jsnum list \<Rightarrow> jsnum" where
  "Math_max xs = foldl js_max NInf xs"

text \<open>\<open>Math.pow(x, 2)\<close>.\<close>

definition js_pow2 :: "jsnum \<Rightarrow> jsnum" where
  "js_pow2 x = js_mul x x"

fun is_fin :: "jsnum \<Rightarrow> bool" where
  "is_fin (Fin a) = True"
| "is_fin _ = False"

fun fin_val :: "jsnum \<Rightarrow> real" where
  "fin_val (Fin a) = a"
| "fin_val _ = 0"

fun js_abs :: "jsnum \<Rightarrow> jsnum" where
  "js_abs (Fin a) = Fin \<bar>a\<bar>"
| "js_abs PInf = PInf"
| "js_abs NInf = PInf"
| "js_abs NaN = NaN"

subsection \<open>Rounded arithmetic\<close>

text \<open>
  A sum, difference or quotient of two finite numbers is the exact result rounded to a
  number of the machine. The rounding is the field \<open>fl\<close> of the arithmetic in use: it maps
  the exact result to the number returned, which may be infinite on overflow. Nothing is
  assumed of it, so that what is proved holds for the rounding of binary64 in
  particular. \<open>Math.pow(x, 2)\<close>, whose accuracy the language leaves to the implementation,
  is the field \<open>pow2\<close>. The pattern check and the automation check, where a rounded result
  is compared with a threshold, are modelled with this arithmetic. The speed check and
  the teleport check keep the exact operations: what is proved of them below is their
  answer on equal timestamps, where every operation is exact, the range of their scores,
  the aggregation of their outcomes, and two scenarios with wide margins (a distance of
  about 2.2 km against the threshold of 1 km, and a speed of about 66.7 km/h, between 66
  and 67).
\<close>

record arithmetic =
  fl :: "real \<Rightarrow> jsnum"
  pow2 :: "jsnum \<Rightarrow> jsnum"

definition fl_add :: "arithmetic \<Rightarrow> jsnum \<Rightarrow> jsnum \<Rightarrow> jsnum" where
  "fl_add ar a b = (case (a, b) of (Fin x, Fin y) \<Rightarrow> fl ar (x + y) | _ \<Rightarrow> js_add a b)"

definition fl_sub :: "arithmetic \<Rightarrow> jsnum \<Rightarrow> jsnum \<Rightarrow> jsnum" where
  "fl_sub ar a b = (case (a, b) of (Fin x, Fin y) \<Rightarrow> fl ar (x - y) | _ \<Rightarrow> js_sub a b)"

definition fl_div :: "arithmetic \<Rightarrow> jsnum \<Rightarrow> jsnum \<Rightarrow> jsnum" where
  "fl_div ar a b =
     (case (a, b) of
        (Fin x, Fin y) \<Rightarrow> if y = 0 then js_div a b else fl ar (x / y)
      | _ \<Rightarrow> js_div a b)"

text \<open>The arithmetic that rounds nothing: it returns what binary64 returns whenever the
  exact result of every operation is a number of the machine.\<close>

definition exact :: arithmetic where
  "exact = \<lparr>fl = Fin, pow2 = js_pow2\<rparr>"

text \<open>
  The decimal literals \<open>0.000001\<close>, \<open>0.0001\<close> and \<open>0.001\<close> are not numbers of the machine:
  each denotes the binary64 number nearest to it, a 53-bit integer over a power of two.
\<close>

definition LIT_0_000001 :: real where
  "LIT_0_000001 = 4722366482869645 / 2 ^ 72"

definition LIT_0_0001 :: real where
  "LIT_0_0001 = 7378697629483821 / 2 ^ 66"

definition LIT_0_001 :: real where
  "LIT_0_001 = 4611686018427388 / 2 ^ 62"

text \<open>
  The \<open>details\<close> field has type \<open>any\<close>: a JavaScript value. An object literal is the list
  of its fields in the order written; a template literal keeps its parts unformatted
  (the decimal rendering of a number is not modelled).
\<close>

datatype jsval =
    VNull
  | VUndefined
  | VNum jsnum
  | VStr string
  | VBool bool
  | VTemplate "jsval list"
  | VArr "jsval list"
  | VObj "(string \<times> jsval) list"

fun js_fields :: "jsval \<Rightarrow> (string \<times> jsval) list" where
  "js_fields (VObj fs) = fs"
| "js_fields _ = []"

definition js_field :: "jsval \<Rightarrow> string \<Rightarrow> jsval option" where
  "js_field v k = map_of (js_fields v) k"

section \<open>Data model\<close>

record LocationPoint =
  latitude :: real
  longitude :: real
  timestamp :: real
  accuracy :: real
  speed :: "real option"

record SuspiciousActivityResult =
  isSuspicious :: bool
  reason :: string
  riskScore :: jsnum
  details :: jsval

record TileRecord =
  tileId :: string
  tileTimestamp :: int

text \<open>One call of \<open>AnalyticsService.trackSuspiciousActivity(suspiciousType, location, details)\<close>.\<close>

record AnalyticsCall =
  suspiciousType :: string
  callLocation :: jsval
  callDetails :: jsval

text \<open>
  The service object: its two private arrays, and the trace of the calls it has made to
  the analytics collaborator (the only effect that leaves the object).
\<close>

record FraudDetectionService =
  locationHistory :: "LocationPoint list"
  tileExplorationHistory :: "TileRecord list"
  tracked :: "AnalyticsCall list"

definition MAX_HISTORY :: nat where
  "MAX_HISTORY = 100"

definition MAX_HUMAN_SPEED :: real where
  "MAX_HUMAN_SPEED = 50"

definition MIN_LOCATION_ACCURACY :: real where
  "MIN_LOCATION_ACCURACY = 100"

definition RAPID_EXPLORATION_THRESHOLD :: nat where
  "RAPID_EXPLORATION_THRESHOLD = 8"

definition newService :: FraudDetectionService where
  "newService = \<lparr>locationHistory = [], tileExplorationHistory = [], tracked = []\<rparr>"

definition result_val :: "SuspiciousActivityResult \<Rightarrow> jsval" where
  "result_val r = VObj [(''isSuspicious'', VBool (isSuspicious r)), (''reason'', VStr (reason r)),
     (''riskScore'', VNum (riskScore r)), (''details'', details r)]"

definition coordinate_str :: "real \<Rightarrow> real \<Rightarrow> jsval" where
  "coordinate_str la lo = VTemplate [VNum (Fin la), VStr '','', VNum (Fin lo)]"

text \<open>
  The distance function \<open>haversine\<close> is imported from \<open>utils/coordinate\<close>; the checks take
  it as the parameter \<open>hav\<close> (latitude and longitude of the first point, then of the
  second; kilometres).
\<close>

type_synonym distance_fn = "real \<Rightarrow> real \<Rightarrow> real \<Rightarrow> real \<Rightarrow> real"

text \<open>
  Modelled from the spec: the helper \<open>haversine\<close> of \<open>utils/coordinate\<close>, the great-circle
  distance in kilometres between two latitude/longitude points on a sphere, with the
  mean Earth radius 6371 km (0.01 degrees of latitude are about 1.11 km).
\<close>

definition toRad :: "real \<Rightarrow> real" where
  "toRad d = d * pi / 180"

definition haversine :: distance_fn where
  "haversine lat1 lon1 lat2 lon2 =
     (let dLat = toRad (lat2 - lat1);
          dLon = toRad (lon2 - lon1);
          a = (sin (dLat / 2))\<^sup>2 + cos (toRad lat1) * cos (toRad lat2) * (sin (dLon / 2))\<^sup>2
      in 6371 * (2 * arcsin (sqrt a)))"

section \<open>The location history\<close>

definition addLocationToHistory :: "FraudDetectionService \<Rightarrow> LocationPoint \<Rightarrow> FraudDetectionService" where
  "addLocationToHistory s location =
     (let pushed = locationHistory s @ [location]
      in s\<lparr>locationHistory := (if length pushed > MAX_HISTORY then tl pushed else pushed)\<rparr>)"

definition getLocationHistory :: "FraudDetectionService \<Rightarrow> LocationPoint list" where
  "getLocationHistory s = locationHistory s"

definition clearHistory :: "FraudDetectionService \<Rightarrow> FraudDetectionService" where
  "clearHistory s = s\<lparr>locationHistory := [], tileExplorationHistory := []\<rparr>"

section \<open>The four checks of a location\<close>

definition checkImpossibleSpeed ::
    "distance_fn \<Rightarrow> FraudDetectionService \<Rightarrow> LocationPoint \<Rightarrow> SuspiciousActivityResult" where
  "checkImpossibleSpeed hav s newLocation =
     (if length (locationHistory s) = 0
      then \<lparr>isSuspicious = False, reason = ''no_previous_location'', riskScore = Fin 0, details = VNull\<rparr>
      else
        let lastLocation = last (locationHistory s);
            distance = hav (latitude lastLocation) (longitude lastLocation)
                           (latitude newLocation) (longitude newLocation);
            timeDiff = (timestamp newLocation - timestamp lastLocation) / 1000;
            speedKmh = js_mul (js_div (Fin (distance * 1000)) (Fin timeDiff)) (Fin (36 / 10))
        in if js_gt speedKmh (Fin MAX_HUMAN_SPEED) \<and> timeDiff > 5
           then \<lparr>isSuspicious = True, reason = ''impossible_speed'',
                  riskScore = js_min (Fin 90) (js_add (Fin 50) (js_sub speedKmh (Fin MAX_HUMAN_SPEED))),
                  details = VObj [(''calculated_speed'', VNum speedKmh),
                                  (''max_allowed_speed'', VNum (Fin MAX_HUMAN_SPEED)),
                                  (''distance'', VNum (Fin distance)),
                                  (''time_diff'', VNum (Fin timeDiff))]\<rparr>
           else \<lparr>isSuspicious = False, reason = ''speed_normal'', riskScore = Fin 0, details = VNull\<rparr>)"

definition checkLocationAccuracy :: "LocationPoint \<Rightarrow> SuspiciousActivityResult" where
  "checkLocationAccuracy location =
     (if accuracy location > MIN_LOCATION_ACCURACY
      then \<lparr>isSuspicious = True, reason = ''poor_accuracy'', riskScore = Fin 30,
             details = VObj [(''accuracy'', VNum (Fin (accuracy location))),
                             (''required_accuracy'', VNum (Fin MIN_LOCATION_ACCURACY))]\<rparr>
      else \<lparr>isSuspicious = False, reason = ''accuracy_good'', riskScore = Fin 0, details = VNull\<rparr>)"

definition checkMovementPattern ::
    "arithmetic \<Rightarrow> FraudDetectionService \<Rightarrow> LocationPoint \<Rightarrow> SuspiciousActivityResult" where
  "checkMovementPattern ar s newLocation =
     (if length (locationHistory s) < 5
      then \<lparr>isSuspicious = False, reason = ''insufficient_pattern_data'', riskScore = Fin 0, details = VNull\<rparr>
      else
        let duplicates = filter (\<lambda>loc.
              js_lt (js_abs (fl_sub ar (Fin (latitude loc)) (Fin (latitude newLocation)))) (Fin LIT_0_000001) \<and>
              js_lt (js_abs (fl_sub ar (Fin (longitude loc)) (Fin (longitude newLocation)))) (Fin LIT_0_000001))
              (locationHistory s)
        in if length duplicates > 3
           then \<lparr>isSuspicious = True, reason = ''identical_coordinates'', riskScore = Fin 70,
                  details = VObj [(''duplicate_count'', VNum (Fin (real (length duplicates)))),
                                  (''coordinate'', coordinate_str (latitude newLocation) (longitude newLocation))]\<rparr>
           else \<lparr>isSuspicious = False, reason = ''pattern_normal'', riskScore = Fin 0, details = VNull\<rparr>)"

definition checkTeleportation ::
    "distance_fn \<Rightarrow> FraudDetectionService \<Rightarrow> LocationPoint \<Rightarrow> SuspiciousActivityResult" where
  "checkTeleportation hav s newLocation =
     (if length (locationHistory s) = 0
      then \<lparr>isSuspicious = False, reason = ''no_previous_location'', riskScore = Fin 0, details = VNull\<rparr>
      else
        let lastLocation = last (locationHistory s);
            distance = hav (latitude lastLocation) (longitude lastLocation)
                           (latitude newLocation) (longitude newLocation);
            timeDiff = (timestamp newLocation - timestamp lastLocation) / 1000
        in if distance > 1 \<and> timeDiff < 2
           then \<lparr>isSuspicious = True, reason = ''teleportation'', riskScore = Fin 95,
                  details = VObj [(''distance'', VNum (Fin distance)),
                                  (''time_diff'', VNum (Fin timeDiff)),
                                  (''from'', coordinate_str (latitude lastLocation) (longitude lastLocation)),
                                  (''to'', coordinate_str (latitude newLocation) (longitude newLocation))]\<rparr>
           else \<lparr>isSuspicious = False, reason = ''movement_normal'', riskScore = Fin 0, details = VNull\<rparr>)"

section \<open>The assessment of a location\<close>

text \<open>
  The second half of \<open>checkLocationValidity\<close> (from the filter of the suspicious checks to
  the two returns), on the list of the four check results and the service after the
  sample has been added.
\<close>

definition assessChecks ::
    "FraudDetectionService \<Rightarrow> LocationPoint \<Rightarrow> SuspiciousActivityResult list
       \<Rightarrow> SuspiciousActivityResult \<times> FraudDetectionService" where
  "assessChecks s newLocation checks =
     (let suspiciousChecks = filter isSuspicious checks
      in if length suspiciousChecks > 0
         then
           let maxRiskScore = Math_max (map riskScore suspiciousChecks);
               primaryReason =
                 (case find (\<lambda>check. js_seq (riskScore check) maxRiskScore) suspiciousChecks of
                    None \<Rightarrow> ''unknown''
                  | Some check \<Rightarrow> if reason check = [] then ''unknown'' else reason check);
               call = \<lparr>suspiciousType = ''location_spoofing'',
                       callLocation = VObj [(''latitude'', VNum (Fin (latitude newLocation))),
                                            (''longitude'', VNum (Fin (longitude newLocation))),
                                            (''accuracy'', VNum (Fin (accuracy newLocation))),
                                            (''speed'', (case speed newLocation of
                                                           None \<Rightarrow> VUndefined
                                                         | Some v \<Rightarrow> VNum (Fin v)))],
                       callDetails = VObj [(''failed_checks'', VArr (map (\<lambda>check. VStr (reason check)) suspiciousChecks)),
                                           (''location_history_count'', VNum (Fin (real (length (locationHistory s))))),
                                           (''primary_reason'', VStr primaryReason)]\<rparr>
           in (\<lparr>isSuspicious = True, reason = primaryReason, riskScore = maxRiskScore,
                 details = VArr (map result_val suspiciousChecks)\<rparr>,
               s\<lparr>tracked := tracked s @ [call]\<rparr>)
         else (\<lparr>isSuspicious = False, reason = ''location_valid'', riskScore = Fin 0, details = VNull\<rparr>, s))"

definition checkLocationValidity ::
    "distance_fn \<Rightarrow> arithmetic \<Rightarrow> FraudDetectionService \<Rightarrow> LocationPoint
       \<Rightarrow> SuspiciousActivityResult \<times> FraudDetectionService" where
  "checkLocationValidity hav ar s0 newLocation =
     (let s = addLocationToHistory s0 newLocation;
          speedCheck = checkImpossibleSpeed hav s newLocation;
          accuracyCheck = checkLocationAccuracy newLocation;
          patternCheck = checkMovementPattern ar s newLocation;
          teleportCheck = checkTeleportation hav s newLocation
      in assessChecks s newLocation [speedCheck, accuracyCheck, patternCheck, teleportCheck])"

section \<open>The exploration rate\<close>

text \<open>\<open>Date.now()\<close> is the argument \<open>now\<close>, in milliseconds.\<close>

definition checkExplorationRate ::
    "FraudDetectionService \<Rightarrow> string \<Rightarrow> int \<Rightarrow> SuspiciousActivityResult \<times> FraudDetectionService" where
  "checkExplorationRate s0 tid now =
     (let pushed = tileExplorationHistory s0 @ [\<lparr>tileId = tid, tileTimestamp = now\<rparr>];
          oneHourAgo = now - (60 * 60 * 1000);
          kept = filter (\<lambda>record. tileTimestamp record > oneHourAgo) pushed;
          s = s0\<lparr>tileExplorationHistory := kept\<rparr>;
          oneMinuteAgo = now - (60 * 1000);
          recentExplorations = filter (\<lambda>record. tileTimestamp record > oneMinuteAgo) kept
      in if length recentExplorations > RAPID_EXPLORATION_THRESHOLD
         then
           let call = \<lparr>suspiciousType = ''rapid_exploration'',
                       callLocation = VObj [(''latitude'', VNum (Fin 0)), (''longitude'', VNum (Fin 0)),
                                            (''accuracy'', VNum (Fin 0))],
                       callDetails = VObj [(''tiles_per_minute'', VNum (Fin (real (length recentExplorations)))),
                                           (''threshold'', VNum (Fin (real RAPID_EXPLORATION_THRESHOLD))),
                                           (''recent_tiles'', VArr (map (\<lambda>r. VStr (tileId r)) recentExplorations))]\<rparr>
           in (\<lparr>isSuspicious = True, reason = ''rapid_exploration'', riskScore = Fin 85,
                 details = VObj [(''tilesPerMinute'', VNum (Fin (real (length recentExplorations)))),
                                 (''threshold'', VNum (Fin (real RAPID_EXPLORATION_THRESHOLD)))]\<rparr>,
               s\<lparr>tracked := tracked s @ [call]\<rparr>)
         else (\<lparr>isSuspicious = False, reason = ''exploration_rate_normal'', riskScore = Fin 0,
                 details = VNull\<rparr>, s))"

section \<open>Automation patterns\<close>

definition detectRepetitivePattern :: "arithmetic \<Rightarrow> LocationPoint list \<Rightarrow> bool" where
  "detectRepetitivePattern ar locations =
     (if length locations < 6 then False
      else
        let pattern = take 3 locations;
            nextPattern = take 3 (drop 3 locations)
        in list_all (\<lambda>(i, loc).
             i < length nextPattern \<and>
             (let nextLoc = nextPattern ! i
              in js_lt (js_abs (fl_sub ar (Fin (latitude loc)) (Fin (latitude nextLoc)))) (Fin LIT_0_0001) \<and>
                 js_lt (js_abs (fl_sub ar (Fin (longitude loc)) (Fin (longitude nextLoc)))) (Fin LIT_0_0001)))
             (enumerate 0 pattern))"

record MovementPatterns =
  perfectTiming :: bool
  unnaturalPrecision :: bool
  repetitiveMovement :: bool
  averageInterval :: jsnum
  intervalVariance :: jsnum

definition patterns_val :: "MovementPatterns \<Rightarrow> jsval" where
  "patterns_val p = VObj [(''perfectTiming'', VBool (perfectTiming p)),
     (''unnaturalPrecision'', VBool (unnaturalPrecision p)),
     (''repetitiveMovement'', VBool (repetitiveMovement p)),
     (''averageInterval'', VNum (averageInterval p)),
     (''intervalVariance'', VNum (intervalVariance p))]"

definition analyzeMovementPatterns ::
    "distance_fn \<Rightarrow> arithmetic \<Rightarrow> FraudDetectionService \<Rightarrow> MovementPatterns" where
  "analyzeMovementPatterns hav ar s =
     (let recentLocations = drop (length (locationHistory s) - 20) (locationHistory s);
          timeIntervals = map (\<lambda>i. fl_sub ar (Fin (timestamp (recentLocations ! i)))
                                               (Fin (timestamp (recentLocations ! (i - 1)))))
                              [1..<length recentLocations];
          avgInterval = fl_div ar (foldl (\<lambda>a b. fl_add ar a b) (Fin 0) timeIntervals)
                                  (Fin (real (length timeIntervals)));
          intervalVar = fl_div ar
             (foldl (\<lambda>sum interval. fl_add ar sum (pow2 ar (fl_sub ar interval avgInterval)))
                    (Fin 0) timeIntervals)
             (Fin (real (length timeIntervals)));
          distances = map (\<lambda>i. hav (latitude (recentLocations ! (i - 1))) (longitude (recentLocations ! (i - 1)))
                                     (latitude (recentLocations ! i)) (longitude (recentLocations ! i)))
                          [1..<length recentLocations]
      in \<lparr>perfectTiming = js_lt intervalVar (Fin 100),
          unnaturalPrecision = list_all (\<lambda>d. d > 0 \<and> d < LIT_0_001) distances,
          repetitiveMovement = detectRepetitivePattern ar recentLocations,
          averageInterval = avgInterval,
          intervalVariance = intervalVar\<rparr>)"

definition checkAutomationPattern ::
    "distance_fn \<Rightarrow> arithmetic \<Rightarrow> FraudDetectionService \<Rightarrow> SuspiciousActivityResult" where
  "checkAutomationPattern hav ar s =
     (if length (locationHistory s) < 10
      then \<lparr>isSuspicious = False, reason = ''insufficient_data'', riskScore = Fin 0, details = VNull\<rparr>
      else
        let patterns = analyzeMovementPatterns hav ar s
        in if perfectTiming patterns \<or> unnaturalPrecision patterns \<or> repetitiveMovement patterns
           then \<lparr>isSuspicious = True, reason = ''automation_detected'', riskScore = Fin 95,
                  details = patterns_val patterns\<rparr>
           else \<lparr>isSuspicious = False, reason = ''human_behavior'', riskScore = Fin 0,
                  details = patterns_val patterns\<rparr>)"

section \<open>Runs of the service and scenarios\<close>

text \<open>The service after a sequence of calls of \<open>checkLocationValidity\<close>.\<close>

definition feed ::
    "distance_fn \<Rightarrow> arithmetic \<Rightarrow> FraudDetectionService \<Rightarrow> LocationPoint list \<Rightarrow> FraudDetectionService" where
  "feed hav ar s xs = foldl (\<lambda>s x. snd (checkLocationValidity hav ar s x)) s xs"

text \<open>A numbered sample, one per minute.\<close>

definition sample_at :: "nat \<Rightarrow> LocationPoint" where
  "sample_at i = \<lparr>latitude = 0, longitude = 0, timestamp = real i * 60000, accuracy = 10, speed = None\<rparr>"

text \<open>The two samples of the teleport scenario.\<close>

definition teleport_prev :: LocationPoint where
  "teleport_prev = \<lparr>latitude = 0, longitude = 0, timestamp = 0, accuracy = 10, speed = None\<rparr>"

definition teleport_new :: LocationPoint where
  "teleport_new = \<lparr>latitude = 0, longitude = 2 / 100, timestamp = 500, accuracy = 10, speed = None\<rparr>"

section \<open>The aggregation rule, as the specification words it\<close>

text \<open>
  An outcome is read as the triple of its flag, its reason and its score. The rule: keep
  the suspicious outcomes; with none, the verdict is not suspicious, \<open>location_valid\<close>,
  score 0; otherwise the score is the maximum of their scores and the reason is that of
  the first of them, in the order of evaluation, whose score is that maximum.
\<close>

definition outcome_of :: "SuspiciousActivityResult \<Rightarrow> bool \<times> string \<times> real" where
  "outcome_of r = (isSuspicious r, reason r, fin_val (riskScore r))"

definition spec_aggregate :: "(bool \<times> string \<times> real) list \<Rightarrow> bool \<times> string \<times> real" where
  "spec_aggregate outcomes =
     (let suspicious = filter fst outcomes
      in if suspicious = [] then (False, ''location_valid'', 0)
         else
           let maxScore = Max (set (map (\<lambda>outcome. snd (snd outcome)) suspicious));
               primary = hd (filter (\<lambda>outcome. snd (snd outcome) = maxScore) suspicious)
           in (True, fst (snd primary), maxScore))"

text \<open>A risk score as the specification types it: an integer from 0 to 100.\<close>

definition valid_score :: "jsnum \<Rightarrow> bool" where
  "valid_score x = (is_fin x \<and> fin_val x = of_int \<lfloor>fin_val x\<rfloor> \<and> 0 \<le> fin_val x \<and> fin_val x \<le> 100)"




text \<open>
  Four outcomes in the order of evaluation: in the first list the first and the third
  are suspicious with the same, maximal score; in the second the first has the maximal
  score and a later one a lower score.
\<close>

definition tie_outcomes :: "SuspiciousActivityResult list" where
  "tie_outcomes =
     [\<lparr>isSuspicious = True, reason = ''impossible_speed'', riskScore = Fin 70, details = VNull\<rparr>,
      \<lparr>isSuspicious = True, reason = ''poor_accuracy'', riskScore = Fin 30, details = VNull\<rparr>,
      \<lparr>isSuspicious = True, reason = ''identical_coordinates'', riskScore = Fin 70, details = VNull\<rparr>,
      \<lparr>isSuspicious = False, reason = ''movement_normal'', riskScore = Fin 0, details = VNull\<rparr>]"

definition descending_outcomes :: "SuspiciousActivityResult list" where
  "descending_outcomes =
     [\<lparr>isSuspicious = True, reason = ''impossible_speed'', riskScore = Fin 80, details = VNull\<rparr>,
      \<lparr>isSuspicious = True, reason = ''poor_accuracy'', riskScore = Fin 30, details = VNull\<rparr>,
      \<lparr>isSuspicious = False, reason = ''pattern_normal'', riskScore = Fin 0, details = VNull\<rparr>,
      \<lparr>isSuspicious = False, reason = ''movement_normal'', riskScore = Fin 0, details = VNull\<rparr>]"

text \<open>A service whose last sample has the timestamp of the sample that is checked.\<close>

definition same_time_service :: FraudDetectionService where
  "same_time_service = \<lparr>locationHistory = [teleport_prev], tileExplorationHistory = [], tracked = []\<rparr>"

definition same_time_sample :: LocationPoint where
  "same_time_sample = \<lparr>latitude = 0, longitude = 2 / 100, timestamp = 0, accuracy = 10, speed = None\<rparr>"

section \<open>Tile discoveries\<close>

text \<open>The service after a sequence of tile discoveries, each with its tile and the time read by \<open>Date.now()\<close>.\<close>

definition discover :: "FraudDetectionService \<Rightarrow> (string \<times> int) list \<Rightarrow> FraudDetectionService" where
  "discover s calls = foldl (\<lambda>s (tid, now). snd (checkExplorationRate s tid now)) s calls"

text \<open>The record that a discovery pushes.\<close>

definition visit :: "string \<times> int \<Rightarrow> TileRecord" where
  "visit c = \<lparr>tileId = fst c, tileTimestamp = snd c\<rparr>"

text \<open>A value is included in the details when it is the value of one of their fields.\<close>

definition details_include :: "jsval \<Rightarrow> jsval \<Rightarrow> bool" where
  "details_include d v = (v \<in> set (map snd (js_fields d)))"

text \<open>Nine discoveries of distinct tiles, one per second.\<close>

definition nine_calls :: "(string \<times> int) list" where
  "nine_calls = [(''t1'', 0), (''t2'', 1000), (''t3'', 2000), (''t4'', 3000), (''t5'', 4000),
                 (''t6'', 5000), (''t7'', 6000), (''t8'', 7000), (''t9'', 8000)]"

section \<open>Duplicate coordinates\<close>

text \<open>
  Two coordinates differ by less than a threshold when the absolute value of their
  rounded difference is below it. A history entry is a duplicate of the sample when its
  latitude and its longitude each differ from the sample's by less than 0.000001
  degrees.
\<close>

definition differ_less :: "arithmetic \<Rightarrow> real \<Rightarrow> real \<Rightarrow> real \<Rightarrow> bool" where
  "differ_less ar a b threshold = js_lt (js_abs (fl_sub ar (Fin a) (Fin b))) (Fin threshold)"

definition near_identical :: "arithmetic \<Rightarrow> LocationPoint \<Rightarrow> LocationPoint \<Rightarrow> bool" where
  "near_identical ar x loc =
     (differ_less ar (latitude loc) (latitude x) LIT_0_000001 \<and>
      differ_less ar (longitude loc) (longitude x) LIT_0_000001)"

definition duplicate_count :: "arithmetic \<Rightarrow> FraudDetectionService \<Rightarrow> LocationPoint \<Rightarrow> nat" where
  "duplicate_count ar s x = length (filter (near_identical ar x) (locationHistory s))"

text \<open>Samples at (1.0, 1.0), one per minute, with accuracy 10.\<close>

definition dup_sample :: "nat \<Rightarrow> LocationPoint" where
  "dup_sample i = \<lparr>latitude = 1, longitude = 1, timestamp = real i * 60000, accuracy = 10, speed = None\<rparr>"

definition dup_service :: FraudDetectionService where
  "dup_service = \<lparr>locationHistory = [dup_sample 1, dup_sample 2, dup_sample 3, dup_sample 4, dup_sample 5],
                  tileExplorationHistory = [], tracked = []\<rparr>"

section \<open>The automation check, as the specification words it\<close>

text \<open>
  The window is the most recent 20 samples of the history (all of them when there are
  fewer); the intervals are the differences of the timestamps of consecutive samples of
  the window, the distances those of their positions; the mean of a list is its sum,
  taken from the left, over its length; the variance is the mean of the squared
  deviations from the mean interval; every operation is rounded. Timing is perfect when
  the variance is below 100; precision is unnatural when every distance is strictly
  between 0 and 0.001 km; movement is repetitive when each of the first three samples of
  the window is within 0.0001 degrees, on both axes, of the sample three places later.
\<close>

definition spec_window :: "LocationPoint list \<Rightarrow> LocationPoint list" where
  "spec_window h = drop (length h - 20) h"

definition spec_intervals :: "arithmetic \<Rightarrow> LocationPoint list \<Rightarrow> jsnum list" where
  "spec_intervals ar w = map (\<lambda>(a, b). fl_sub ar (Fin (timestamp b)) (Fin (timestamp a))) (zip w (tl w))"

definition spec_mean :: "arithmetic \<Rightarrow> jsnum list \<Rightarrow> jsnum" where
  "spec_mean ar xs = fl_div ar (foldl (fl_add ar) (Fin 0) xs) (Fin (real (length xs)))"

definition spec_variance :: "arithmetic \<Rightarrow> jsnum list \<Rightarrow> jsnum" where
  "spec_variance ar xs = spec_mean ar (map (\<lambda>v. pow2 ar (fl_sub ar v (spec_mean ar xs))) xs)"

definition spec_distances :: "distance_fn \<Rightarrow> LocationPoint list \<Rightarrow> real list" where
  "spec_distances hav w =
     map (\<lambda>(a, b). hav (latitude a) (longitude a) (latitude b) (longitude b)) (zip w (tl w))"

definition spec_perfectTiming :: "arithmetic \<Rightarrow> LocationPoint list \<Rightarrow> bool" where
  "spec_perfectTiming ar w = js_lt (spec_variance ar (spec_intervals ar w)) (Fin 100)"

definition spec_unnaturalPrecision :: "distance_fn \<Rightarrow> LocationPoint list \<Rightarrow> bool" where
  "spec_unnaturalPrecision hav w = list_all (\<lambda>d. 0 < d \<and> d < LIT_0_001) (spec_distances hav w)"

definition spec_repetitiveMovement :: "arithmetic \<Rightarrow> LocationPoint list \<Rightarrow> bool" where
  "spec_repetitiveMovement ar w =
     list_all (\<lambda>i. differ_less ar (latitude (w ! i)) (latitude (w ! (i + 3))) LIT_0_0001 \<and>
                   differ_less ar (longitude (w ! i)) (longitude (w ! (i + 3))) LIT_0_0001) [0, 1, 2]"

text \<open>Ten samples at one place, one per second.\<close>

definition auto_sample :: "real \<Rightarrow> LocationPoint" where
  "auto_sample t = \<lparr>latitude = 0, longitude = 0, timestamp = t, accuracy = 10, speed = None\<rparr>"

definition auto_service :: FraudDetectionService where
  "auto_service = \<lparr>locationHistory = [auto_sample 0, auto_sample 1000, auto_sample 2000, auto_sample 3000,
       auto_sample 4000, auto_sample 5000, auto_sample 6000, auto_sample 7000, auto_sample 8000,
       auto_sample 9000],
     tileExplorationHistory = [], tracked = []\<rparr>"

section \<open>The location history\<close>

lemma addLocationToHistory_history:
  "locationHistory (addLocationToHistory s x) =
     (if length (locationHistory s) \<ge> MAX_HISTORY then tl (locationHistory s @ [x])
      else locationHistory s @ [x])"
  by (simp add: addLocationToHistory_def Let_def)

lemma addLocationToHistory_nonempty: "locationHistory (addLocationToHistory s x) \<noteq> []"
  by (cases "locationHistory s") (simp_all add: addLocationToHistory_history MAX_HISTORY_def)

lemma addLocationToHistory_last: "last (locationHistory (addLocationToHistory s x)) = x"
  by (cases "locationHistory s") (simp_all add: addLocationToHistory_history MAX_HISTORY_def)

lemma addLocationToHistory_frame:
  "tileExplorationHistory (addLocationToHistory s x) = tileExplorationHistory s"
  "tracked (addLocationToHistory s x) = tracked s"
  by (simp_all add: addLocationToHistory_def Let_def)

lemma foldl_addLocationToHistory:
  "length (locationHistory s) \<le> 100 \<Longrightarrow>
   locationHistory (foldl addLocationToHistory s xs) =
     drop (length (locationHistory s @ xs) - 100) (locationHistory s @ xs)"
proof (induction xs arbitrary: s)
  case Nil
  then show ?case by simp
next
  case (Cons x xs)
  let ?h = "locationHistory s"
  let ?s' = "addLocationToHistory s x"
  show ?case
  proof (cases "length ?h = 100")
    case True
    then have ne: "?h \<noteq> []" by auto
    have h': "locationHistory ?s' = tl ?h @ [x]"
      using True ne by (simp add: addLocationToHistory_history MAX_HISTORY_def)
    have len: "length (locationHistory ?s') \<le> 100" using True h' by simp
    have "locationHistory (foldl addLocationToHistory ?s' xs) =
            drop (length (locationHistory ?s' @ xs) - 100) (locationHistory ?s' @ xs)"
      by (rule Cons.IH [OF len])
    also have "locationHistory ?s' @ xs = tl (?h @ x # xs)"
      using ne h' by simp
    also have "drop (length (tl (?h @ x # xs)) - 100) (tl (?h @ x # xs)) =
               drop (length (?h @ x # xs) - 100) (?h @ x # xs)"
      using True by (simp add: drop_Suc [symmetric] del: tl_append2)
    finally show ?thesis by simp
  next
    case False
    with Cons.prems have lt: "length ?h < 100" by simp
    have h': "locationHistory ?s' = ?h @ [x]"
      using lt by (simp add: addLocationToHistory_history MAX_HISTORY_def)
    have len: "length (locationHistory ?s') \<le> 100" using lt h' by simp
    show ?thesis
      using Cons.IH [OF len] h' by simp
  qed
qed

text \<open>
  Claim C4. After any sequence of samples has been added to a new service, the history
  read by \<open>getLocationHistory\<close> is the last \<open>min n 100\<close> of the \<open>n\<close> samples, in the order
  of arrival; after 150 samples it has length 100 and holds the samples 51 to 150.
\<close>

theorem history_keeps_last_100:
  "getLocationHistory (foldl addLocationToHistory newService xs)
     = drop (length xs - min (length xs) 100) xs
   \<and> length (getLocationHistory (foldl addLocationToHistory newService xs)) = min (length xs) 100
   \<and> (length xs = 150 \<longrightarrow>
        length (getLocationHistory (foldl addLocationToHistory newService xs)) = 100
        \<and> getLocationHistory (foldl addLocationToHistory newService xs) = drop 50 xs)"
proof -
  have "locationHistory (foldl addLocationToHistory newService xs) = drop (length xs - 100) xs"
    using foldl_addLocationToHistory [of newService xs] by (simp add: newService_def)
  then show ?thesis
    by (auto simp: getLocationHistory_def min_def)
qed

theorem history_keeps_last_100_witness:
  "length (map sample_at [1..<151]) = 150
   \<and> length (getLocationHistory (foldl addLocationToHistory newService (map sample_at [1..<151]))) = 100
   \<and> getLocationHistory (foldl addLocationToHistory newService (map sample_at [1..<151]))
       = map sample_at [51..<151]"
proof -
  have "drop 50 (map sample_at [1..<151]) = map sample_at [51..<151]"
    by (simp add: drop_map)
  then show ?thesis
    using history_keeps_last_100 [of "map sample_at [1..<151]"] by simp
qed

section \<open>The checks on the service after the sample has been added\<close>

lemma checkImpossibleSpeed_same_time:
  assumes "locationHistory s \<noteq> []" and "timestamp (last (locationHistory s)) = timestamp newLocation"
  shows "checkImpossibleSpeed hav s newLocation =
           \<lparr>isSuspicious = False, reason = ''speed_normal'', riskScore = Fin 0, details = VNull\<rparr>"
  using assms by (simp add: checkImpossibleSpeed_def Let_def)

lemma checkImpossibleSpeed_added:
  "checkImpossibleSpeed hav (addLocationToHistory s0 newLocation) newLocation =
     \<lparr>isSuspicious = False, reason = ''speed_normal'', riskScore = Fin 0, details = VNull\<rparr>"
  by (rule checkImpossibleSpeed_same_time)
     (simp_all add: addLocationToHistory_nonempty addLocationToHistory_last)

lemma checkTeleportation_added:
  "hav (latitude newLocation) (longitude newLocation) (latitude newLocation) (longitude newLocation) \<le> 1 \<Longrightarrow>
   checkTeleportation hav (addLocationToHistory s0 newLocation) newLocation =
     \<lparr>isSuspicious = False, reason = ''movement_normal'', riskScore = Fin 0, details = VNull\<rparr>"
  by (simp add: checkTeleportation_def Let_def addLocationToHistory_nonempty addLocationToHistory_last)

lemma haversine_same: "haversine la lo la lo = 0"
  by (simp add: haversine_def toRad_def)

lemma haversine_equator:
  assumes "0 \<le> d" "d \<le> 180"
  shows "haversine 0 0 0 d = 6371 * (d * pi / 180)"
proof -
  let ?x = "d * pi / 360"
  have x0: "0 \<le> ?x" using assms by simp
  have "d * pi \<le> 180 * pi" using assms by (simp add: mult_right_mono)
  then have x1: "?x \<le> pi / 2" by simp
  have x2: "?x \<le> pi" using x1 pi_ge_zero by linarith
  have x3: "- (pi / 2) \<le> ?x" using x0 pi_ge_zero by linarith
  have "0 \<le> sin ?x" using x0 x2 by (rule sin_ge_zero)
  then have root: "sqrt ((sin ?x)\<^sup>2) = sin ?x" by simp
  have arc: "arcsin (sin ?x) = ?x" using x3 x1 by (rule arcsin_sin)
  have "haversine 0 0 0 d = 6371 * (2 * arcsin (sqrt ((sin ?x)\<^sup>2)))"
    by (simp add: haversine_def toRad_def Let_def)
  also have "\<dots> = 6371 * (2 * ?x)" by (simp only: root arc)
  also have "\<dots> = 6371 * (d * pi / 180)" by simp
  finally show ?thesis .
qed

lemma haversine_teleport: "1 < haversine 0 0 0 (2 / 100)"
proof -
  have "haversine 0 0 0 (2 / 100) = 6371 * ((2 / 100) * pi / 180)"
    by (rule haversine_equator) simp_all
  moreover have "2 \<le> pi" by (rule pi_ge_two)
  ultimately show ?thesis by simp
qed

lemma checkTeleportation_previous_tail:
  "checkTeleportation haversine \<lparr>locationHistory = [teleport_prev], tileExplorationHistory = [], tracked = []\<rparr> teleport_new
    = \<lparr>isSuspicious = True, reason = ''teleportation'', riskScore = Fin 95,
        details = VObj [(''distance'', VNum (Fin (haversine 0 0 0 (2 / 100)))),
                                  (''time_diff'', VNum (Fin (1/2))),
                                  (''from'', coordinate_str 0 0),
                                  (''to'', coordinate_str 0 (2/100))]\<rparr>"
  using haversine_teleport by (simp add: checkTeleportation_def Let_def teleport_prev_def teleport_new_def)

lemma checkMovementPattern_short:
  "length (locationHistory s) < 5 \<Longrightarrow> checkMovementPattern ar s x =
     \<lparr>isSuspicious = False, reason = ''insufficient_pattern_data'', riskScore = Fin 0, details = VNull\<rparr>"
  by (simp add: checkMovementPattern_def)

lemma checkLocationAccuracy_good:
  "accuracy x \<le> 100 \<Longrightarrow> checkLocationAccuracy x =
     \<lparr>isSuspicious = False, reason = ''accuracy_good'', riskScore = Fin 0, details = VNull\<rparr>"
  by (simp add: checkLocationAccuracy_def MIN_LOCATION_ACCURACY_def)

lemma assessChecks_none:
  "filter isSuspicious cs = [] \<Longrightarrow>
   assessChecks s x cs =
     (\<lparr>isSuspicious = False, reason = ''location_valid'', riskScore = Fin 0, details = VNull\<rparr>, s)"
  by (simp add: assessChecks_def)

lemma assessChecks_frame:
  "locationHistory (snd (assessChecks s x cs)) = locationHistory s"
  "tileExplorationHistory (snd (assessChecks s x cs)) = tileExplorationHistory s"
  by (simp_all add: assessChecks_def Let_def)

lemma checkLocationValidity_history:
  "locationHistory (snd (checkLocationValidity hav ar s x)) = locationHistory (addLocationToHistory s x)"
  by (simp add: checkLocationValidity_def Let_def assessChecks_frame)

lemma checkLocationValidity_quiet:
  assumes "accuracy x \<le> 100"
    and "length (locationHistory (addLocationToHistory s x)) < 5"
    and "hav (latitude x) (longitude x) (latitude x) (longitude x) \<le> 1"
  shows "checkLocationValidity hav ar s x =
     (\<lparr>isSuspicious = False, reason = ''location_valid'', riskScore = Fin 0, details = VNull\<rparr>,
      addLocationToHistory s x)"
  using assms
  by (simp add: checkLocationValidity_def Let_def checkImpossibleSpeed_added checkTeleportation_added
      checkLocationAccuracy_good checkMovementPattern_short assessChecks_none)

section \<open>The aggregation\<close>

lemma js_max_Fin: "js_max (Fin a) (Fin b) = Fin (max a b)"
  by (simp add: js_max_def max_def)

lemma foldl_js_max_Fin: "foldl js_max (Fin a) (map Fin xs) = Fin (foldl max a xs)"
  by (induction xs arbitrary: a) (simp_all add: js_max_Fin)

lemma foldl_max_Max: "foldl max (a::real) xs = Max (set (a # xs))"
proof (induction xs arbitrary: a)
  case Nil
  then show ?case by simp
next
  case (Cons x xs)
  have "foldl max a (x # xs) = Max (set (max a x # xs))"
    using Cons.IH [of "max a x"] by simp
  also have "\<dots> = Max (insert a (insert x (set xs)))"
  proof (cases "xs = []")
    case True
    then show ?thesis by simp
  next
    case False
    then show ?thesis
      by (simp add: Max_insert max.assoc)
  qed
  finally show ?case by simp
qed

lemma Math_max_Fin:
  assumes "xs \<noteq> []"
  shows "Math_max (map Fin xs) = Fin (Max (set xs))"
proof -
  obtain y ys where xs: "xs = y # ys" using assms by (cases xs) auto
  have "Math_max (map Fin xs) = foldl js_max (Fin y) (map Fin ys)"
    by (simp add: xs Math_max_def js_max_def)
  then show ?thesis
    by (simp add: foldl_js_max_Fin foldl_max_Max xs)
qed

lemma map_riskScore_Fin:
  "list_all (\<lambda>c. is_fin (riskScore c)) cs \<Longrightarrow>
   map riskScore cs = map Fin (map (\<lambda>c. fin_val (riskScore c)) cs)"
proof (induction cs)
  case Nil
  then show ?case by simp
next
  case (Cons c cs)
  then show ?case by (cases "riskScore c") simp_all
qed

lemma find_filter_hd:
  "find P xs = (if filter P xs = [] then None else Some (hd (filter P xs)))"
  by (induction xs) simp_all

lemma js_seq_Fin: "is_fin a \<Longrightarrow> js_seq a (Fin m) = (fin_val a = m)"
  by (cases a) (simp_all add: js_seq_def)

lemma filter_js_seq:
  "list_all (\<lambda>c. is_fin (riskScore c)) cs \<Longrightarrow>
   filter (\<lambda>c. js_seq (riskScore c) (Fin m)) cs = filter (\<lambda>c. fin_val (riskScore c) = m) cs"
  by (induction cs) (simp_all add: js_seq_Fin)

lemma Max_attained:
  assumes "cs \<noteq> []"
  shows "filter (\<lambda>c. f c = Max (set (map f cs))) cs \<noteq> []"
proof -
  have "Max (set (map f cs)) \<in> set (map f cs)"
    using assms by (intro Max_in) simp_all
  then obtain c where "c \<in> set cs" "f c = Max (set (map f cs))" by auto
  then show ?thesis by (auto simp: filter_empty_conv)
qed

lemma assessChecks_found:
  assumes "filter isSuspicious cs = sus" and "sus \<noteq> []"
    and "Math_max (map riskScore sus) = M"
    and "find (\<lambda>c. js_seq (riskScore c) M) sus = Some c" and "reason c \<noteq> []"
  shows "isSuspicious (fst (assessChecks s x cs))"
    and "riskScore (fst (assessChecks s x cs)) = M"
    and "reason (fst (assessChecks s x cs)) = reason c"
  using assms by (simp_all add: assessChecks_def Let_def)

lemma assessChecks_suspicious:
  assumes fin: "list_all (\<lambda>c. is_fin (riskScore c)) cs"
    and rs: "list_all (\<lambda>c. reason c \<noteq> []) cs"
    and ne: "filter isSuspicious cs \<noteq> []"
  shows "isSuspicious (fst (assessChecks s x cs))"
    and "riskScore (fst (assessChecks s x cs))
           = Fin (Max (set (map (\<lambda>c. fin_val (riskScore c)) (filter isSuspicious cs))))"
    and "reason (fst (assessChecks s x cs))
           = reason (hd (filter (\<lambda>c. fin_val (riskScore c)
                = Max (set (map (\<lambda>c. fin_val (riskScore c)) (filter isSuspicious cs))))
               (filter isSuspicious cs)))"
proof -
  let ?sus = "filter isSuspicious cs"
  let ?f = "\<lambda>c. fin_val (riskScore c)"
  let ?m = "Max (set (map ?f ?sus))"
  have fin': "list_all (\<lambda>c. is_fin (riskScore c)) ?sus"
    using fin by (simp add: list_all_iff)
  have "map ?f ?sus \<noteq> []" using ne by simp
  then have "Math_max (map Fin (map ?f ?sus)) = Fin ?m"
    by (rule Math_max_Fin)
  then have mx: "Math_max (map riskScore ?sus) = Fin ?m"
    by (simp only: map_riskScore_Fin [OF fin'])
  have flt: "filter (\<lambda>c. js_seq (riskScore c) (Fin ?m)) ?sus = filter (\<lambda>c. ?f c = ?m) ?sus"
    by (rule filter_js_seq [OF fin'])
  have att: "filter (\<lambda>c. ?f c = ?m) ?sus \<noteq> []"
    by (rule Max_attained [OF ne])
  then have "hd (filter (\<lambda>c. ?f c = ?m) ?sus) \<in> set cs"
    using hd_in_set [OF att] by auto
  then have r: "reason (hd (filter (\<lambda>c. ?f c = ?m) ?sus)) \<noteq> []"
    using rs by (simp add: list_all_iff)
  have fnd: "find (\<lambda>c. js_seq (riskScore c) (Fin ?m)) ?sus = Some (hd (filter (\<lambda>c. ?f c = ?m) ?sus))"
    unfolding find_filter_hd flt by (simp only: att if_False)
  show "isSuspicious (fst (assessChecks s x cs))"
    by (rule assessChecks_found(1) [OF refl ne mx fnd r])
  show "riskScore (fst (assessChecks s x cs)) = Fin ?m"
    by (rule assessChecks_found(2) [OF refl ne mx fnd r])
  show "reason (fst (assessChecks s x cs)) = reason (hd (filter (\<lambda>c. ?f c = ?m) ?sus))"
    by (rule assessChecks_found(3) [OF refl ne mx fnd r])
qed

lemma assessChecks_none_fst:
  assumes "filter isSuspicious cs = []"
  shows "fst (assessChecks s x cs) = \<lparr>isSuspicious = False, reason = ''location_valid'', riskScore = Fin 0, details = VNull\<rparr>"
  using assms by (simp add: assessChecks_def)

lemma filter_fst_outcome_of:
  "filter fst (map outcome_of cs) = map outcome_of (filter isSuspicious cs)"
  by (induction cs) (simp_all add: outcome_of_def)

lemma filter_map_outcome_of:
  "filter (\<lambda>outcome. snd (snd outcome) = m) (map outcome_of cs)
     = map outcome_of (filter (\<lambda>c. fin_val (riskScore c) = m) cs)"
  by (induction cs) (simp_all add: outcome_of_def)

lemma assessChecks_refines_spec:
  assumes fin: "list_all (\<lambda>c. is_fin (riskScore c)) cs"
    and rs: "list_all (\<lambda>c. reason c \<noteq> []) cs"
  shows "outcome_of (fst (assessChecks s x cs)) = spec_aggregate (map outcome_of cs)"
    and "is_fin (riskScore (fst (assessChecks s x cs)))"
proof -
  let ?sus = "filter isSuspicious cs"
  let ?f = "\<lambda>c. fin_val (riskScore c)"
  let ?m = "Max (set (map ?f ?sus))"
  have both: "outcome_of (fst (assessChecks s x cs)) = spec_aggregate (map outcome_of cs)
     \<and> is_fin (riskScore (fst (assessChecks s x cs)))"
  proof (cases "?sus = []")
    case True
    then show ?thesis
      by (simp add: assessChecks_none_fst spec_aggregate_def filter_fst_outcome_of outcome_of_def)
  next
    case False
    note a = assessChecks_suspicious [OF fin rs False, of s x]
    have att: "filter (\<lambda>c. ?f c = ?m) ?sus \<noteq> []"
      by (rule Max_attained [OF False])
    have m: "map (\<lambda>outcome. snd (snd outcome)) (map outcome_of ?sus) = map ?f ?sus"
      by (simp add: outcome_of_def)
    have "spec_aggregate (map outcome_of cs)
        = (True, reason (hd (filter (\<lambda>c. ?f c = ?m) ?sus)), ?m)"
      using False att
      by (simp add: spec_aggregate_def filter_fst_outcome_of Let_def m filter_map_outcome_of hd_map
          del: map_map)
         (simp add: outcome_of_def)
    then show ?thesis
      using a by (simp add: outcome_of_def)
  qed
  from both show "outcome_of (fst (assessChecks s x cs)) = spec_aggregate (map outcome_of cs)" by simp
  from both show "is_fin (riskScore (fst (assessChecks s x cs)))" by simp
qed

lemma checkLocationAccuracy_props:
  "is_fin (riskScore (checkLocationAccuracy x))" "reason (checkLocationAccuracy x) \<noteq> []"
  "valid_score (riskScore (checkLocationAccuracy x))"
  by (simp_all add: checkLocationAccuracy_def valid_score_def)

lemma checkMovementPattern_props:
  "is_fin (riskScore (checkMovementPattern ar s x))" "reason (checkMovementPattern ar s x) \<noteq> []"
  "valid_score (riskScore (checkMovementPattern ar s x))"
  by (simp_all add: checkMovementPattern_def valid_score_def Let_def)

lemma checkTeleportation_props:
  "is_fin (riskScore (checkTeleportation hav s x))" "reason (checkTeleportation hav s x) \<noteq> []"
  "valid_score (riskScore (checkTeleportation hav s x))"
  by (simp_all add: checkTeleportation_def valid_score_def Let_def)

lemma checkImpossibleSpeed_score_range:
  "is_fin (riskScore (checkImpossibleSpeed hav s x))
   \<and> 0 \<le> fin_val (riskScore (checkImpossibleSpeed hav s x))
   \<and> fin_val (riskScore (checkImpossibleSpeed hav s x)) \<le> 90"
  by (simp add: checkImpossibleSpeed_def Let_def js_gt_def js_min_def js_sub_def MAX_HUMAN_SPEED_def)

lemma checkImpossibleSpeed_reason: "reason (checkImpossibleSpeed hav s x) \<noteq> []"
  by (simp add: checkImpossibleSpeed_def Let_def)

lemma location_checks_fin:
  "list_all (\<lambda>c. is_fin (riskScore c))
     [checkImpossibleSpeed hav s x, checkLocationAccuracy x, checkMovementPattern ar s x, checkTeleportation hav s x]"
  by (simp add: checkImpossibleSpeed_score_range checkLocationAccuracy_props checkMovementPattern_props
      checkTeleportation_props)

lemma location_checks_reason:
  "list_all (\<lambda>c. reason c \<noteq> [])
     [checkImpossibleSpeed hav s x, checkLocationAccuracy x, checkMovementPattern ar s x, checkTeleportation hav s x]"
  by (simp add: checkImpossibleSpeed_reason checkLocationAccuracy_props checkMovementPattern_props
      checkTeleportation_props)

text \<open>
  Claim C1. The aggregation of \<open>checkLocationValidity\<close> is the rule of the specification,
  for any outcomes with finite scores and non-empty reasons: with no suspicious outcome
  the verdict is not suspicious, \<open>location_valid\<close>, score 0; otherwise its score is the
  maximum score of the suspicious outcomes and its reason is that of the first suspicious
  outcome, in the order of evaluation, with that score. The four checks, run in the
  order speed, accuracy, pattern, teleport on any service, give such outcomes, and the
  verdict of \<open>checkLocationValidity\<close> is the aggregation of the four checks run on the
  service with the sample added. (The aggregation only compares and copies scores, so
  rounding plays no part in it.)
\<close>

theorem verdict_is_first_maximum:
  "(list_all (\<lambda>c. is_fin (riskScore c)) cs \<and> list_all (\<lambda>c. reason c \<noteq> []) cs \<longrightarrow>
      is_fin (riskScore (fst (assessChecks s x cs)))
      \<and> outcome_of (fst (assessChecks s x cs)) = spec_aggregate (map outcome_of cs))
   \<and> (let outcomes = [checkImpossibleSpeed hav s x, checkLocationAccuracy x,
                       checkMovementPattern ar s x, checkTeleportation hav s x]
       in list_all (\<lambda>c. is_fin (riskScore c)) outcomes
          \<and> list_all (\<lambda>c. reason c \<noteq> []) outcomes
          \<and> is_fin (riskScore (fst (assessChecks s x outcomes)))
          \<and> outcome_of (fst (assessChecks s x outcomes)) = spec_aggregate (map outcome_of outcomes))
   \<and> (let s1 = addLocationToHistory s0 x;
           outcomes = [checkImpossibleSpeed hav s1 x, checkLocationAccuracy x,
                       checkMovementPattern ar s1 x, checkTeleportation hav s1 x];
           verdict = fst (checkLocationValidity hav ar s0 x)
       in verdict = fst (assessChecks s1 x outcomes)
          \<and> list_all (\<lambda>c. is_fin (riskScore c)) outcomes
          \<and> is_fin (riskScore verdict)
          \<and> outcome_of verdict = spec_aggregate (map outcome_of outcomes))"
proof (intro conjI impI)
  assume "list_all (\<lambda>c. is_fin (riskScore c)) cs \<and> list_all (\<lambda>c. reason c \<noteq> []) cs"
  then have fin: "list_all (\<lambda>c. is_fin (riskScore c)) cs" and rs: "list_all (\<lambda>c. reason c \<noteq> []) cs"
    by simp_all
  show "is_fin (riskScore (fst (assessChecks s x cs)))"
    by (rule assessChecks_refines_spec(2) [OF fin rs])
  show "outcome_of (fst (assessChecks s x cs)) = spec_aggregate (map outcome_of cs)"
    by (rule assessChecks_refines_spec(1) [OF fin rs])
next
  show "let outcomes = [checkImpossibleSpeed hav s x, checkLocationAccuracy x,
                       checkMovementPattern ar s x, checkTeleportation hav s x]
       in list_all (\<lambda>c. is_fin (riskScore c)) outcomes
          \<and> list_all (\<lambda>c. reason c \<noteq> []) outcomes
          \<and> is_fin (riskScore (fst (assessChecks s x outcomes)))
          \<and> outcome_of (fst (assessChecks s x outcomes)) = spec_aggregate (map outcome_of outcomes)"
    unfolding Let_def
    using assessChecks_refines_spec [OF location_checks_fin location_checks_reason]
          location_checks_fin location_checks_reason
    by blast
next
  show "let s1 = addLocationToHistory s0 x;
           outcomes = [checkImpossibleSpeed hav s1 x, checkLocationAccuracy x,
                       checkMovementPattern ar s1 x, checkTeleportation hav s1 x];
           verdict = fst (checkLocationValidity hav ar s0 x)
       in verdict = fst (assessChecks s1 x outcomes)
          \<and> list_all (\<lambda>c. is_fin (riskScore c)) outcomes
          \<and> is_fin (riskScore verdict)
          \<and> outcome_of verdict = spec_aggregate (map outcome_of outcomes)"
    unfolding Let_def checkLocationValidity_def
    using assessChecks_refines_spec [OF location_checks_fin location_checks_reason]
          location_checks_fin
    by blast
qed

theorem verdict_is_first_maximum_witness:
  "list_all (\<lambda>c. is_fin (riskScore c)) tie_outcomes
   \<and> list_all (\<lambda>c. reason c \<noteq> []) tie_outcomes
   \<and> outcome_of (fst (assessChecks newService teleport_new tie_outcomes)) = (True, ''impossible_speed'', 70)
   \<and> list_all (\<lambda>c. is_fin (riskScore c)) descending_outcomes
   \<and> list_all (\<lambda>c. reason c \<noteq> []) descending_outcomes
   \<and> outcome_of (fst (assessChecks newService teleport_new descending_outcomes)) = (True, ''impossible_speed'', 80)"
proof -
  have t: "list_all (\<lambda>c. is_fin (riskScore c)) tie_outcomes" "list_all (\<lambda>c. reason c \<noteq> []) tie_outcomes"
    by (simp_all add: tie_outcomes_def)
  have d: "list_all (\<lambda>c. is_fin (riskScore c)) descending_outcomes"
    "list_all (\<lambda>c. reason c \<noteq> []) descending_outcomes"
    by (simp_all add: descending_outcomes_def)
  have st: "spec_aggregate (map outcome_of tie_outcomes) = (True, ''impossible_speed'', 70)"
    by (simp add: spec_aggregate_def outcome_of_def tie_outcomes_def)
  have sd: "spec_aggregate (map outcome_of descending_outcomes) = (True, ''impossible_speed'', 80)"
    by (simp add: spec_aggregate_def outcome_of_def descending_outcomes_def)
  show ?thesis
    using verdict_is_first_maximum [of tie_outcomes newService teleport_new]
          verdict_is_first_maximum [of descending_outcomes newService teleport_new] t d
    by (simp add: st sd)
qed

section \<open>The first sample and the teleport scenario\<close>

text \<open>
  Claim C2. The claim expects, on the first sample of a new service, the reason
  \<open>no_previous_location\<close> from the speed check and from the teleport check. The sample is
  added to the history before the checks run, so the history they read is never empty
  and its last entry is the sample itself: the speed check answers \<open>speed_normal\<close> and the
  teleport check \<open>movement_normal\<close>; only the pattern check answers as claimed. The
  theorem evaluates the three checks as \<open>checkLocationValidity\<close> runs them on the first
  sample, whatever the sample.
\<close>

theorem first_sample_reasons:
  "reason (checkImpossibleSpeed haversine (addLocationToHistory newService x) x) = ''speed_normal''
   \<and> reason (checkTeleportation haversine (addLocationToHistory newService x) x) = ''movement_normal''
   \<and> reason (checkMovementPattern ar (addLocationToHistory newService x) x) = ''insufficient_pattern_data''
   \<and> \<not> isSuspicious (checkImpossibleSpeed haversine (addLocationToHistory newService x) x)
   \<and> \<not> isSuspicious (checkTeleportation haversine (addLocationToHistory newService x) x)
   \<and> \<not> isSuspicious (checkMovementPattern ar (addLocationToHistory newService x) x)"
proof -
  have "length (locationHistory (addLocationToHistory newService x)) < 5"
    by (simp add: addLocationToHistory_history newService_def MAX_HISTORY_def)
  then show ?thesis
    by (simp add: checkImpossibleSpeed_added checkTeleportation_added haversine_same
        checkMovementPattern_short)
qed

text \<open>
  Claim C3. The claim expects the verdict \<open>teleportation\<close>, score 95, for the sample
  (0, 0.02) at 500 ms after the sample (0, 0) at 0 ms. The teleport check reads the last
  entry of the history, which is the sample just added, so the distance is that of the
  sample to itself and the verdict is \<open>location_valid\<close>. (Against the previous sample the
  check would answer as claimed: \<open>checkTeleportation_previous_tail\<close>.)
\<close>

theorem teleport_scenario_verdict:
  "fst (checkLocationValidity haversine ar (snd (checkLocationValidity haversine ar newService teleport_prev)) teleport_new)
     = \<lparr>isSuspicious = False, reason = ''location_valid'', riskScore = Fin 0, details = VNull\<rparr>
   \<and> checkTeleportation haversine
        (addLocationToHistory (snd (checkLocationValidity haversine ar newService teleport_prev)) teleport_new) teleport_new
     = \<lparr>isSuspicious = False, reason = ''movement_normal'', riskScore = Fin 0, details = VNull\<rparr>"
proof -
  have s1: "snd (checkLocationValidity haversine ar newService teleport_prev)
              = addLocationToHistory newService teleport_prev"
    by (subst checkLocationValidity_quiet)
       (simp_all add: haversine_same teleport_prev_def addLocationToHistory_history newService_def MAX_HISTORY_def)
  have "checkLocationValidity haversine ar (addLocationToHistory newService teleport_prev) teleport_new
      = (\<lparr>isSuspicious = False, reason = ''location_valid'', riskScore = Fin 0, details = VNull\<rparr>,
         addLocationToHistory (addLocationToHistory newService teleport_prev) teleport_new)"
    by (rule checkLocationValidity_quiet)
       (simp_all add: haversine_same teleport_new_def addLocationToHistory_history newService_def MAX_HISTORY_def)
  then show ?thesis
    by (simp add: s1 checkTeleportation_added haversine_same)
qed

section \<open>Equal timestamps\<close>

text \<open>
  The division by zero is a value of the model: with equal timestamps and two different
  places the speed is \<open>Infinity\<close>, and with the same place it is \<open>NaN\<close>.
\<close>

lemma equal_timestamps_speed:
  "js_mul (js_div (Fin (haversine 0 0 0 (2 / 100) * 1000)) (Fin ((0 - 0) / 1000))) (Fin (36 / 10)) = PInf"
  "js_mul (js_div (Fin (haversine 0 0 0 0 * 1000)) (Fin ((0 - 0) / 1000))) (Fin (36 / 10)) = NaN"
  using haversine_teleport by (simp_all add: haversine_same inf_signed_def)

text \<open>
  Claim C6. When the sample that is checked has the timestamp of the last entry of the
  history, the time difference is 0 and the speed is \<open>Infinity\<close> or \<open>NaN\<close>; the speed check
  answers not suspicious, \<open>speed_normal\<close>, score 0, and the score of the verdict computed
  from the four checks is a finite number.
\<close>

theorem speed_check_equal_timestamps:
  assumes "locationHistory s \<noteq> []"
    and "timestamp (last (locationHistory s)) = timestamp newLocation"
  shows "checkImpossibleSpeed hav s newLocation =
           \<lparr>isSuspicious = False, reason = ''speed_normal'', riskScore = Fin 0, details = VNull\<rparr>
         \<and> is_fin (riskScore (fst (assessChecks s newLocation
              [checkImpossibleSpeed hav s newLocation, checkLocationAccuracy newLocation,
               checkMovementPattern ar s newLocation, checkTeleportation hav s newLocation])))"
proof
  show "checkImpossibleSpeed hav s newLocation =
           \<lparr>isSuspicious = False, reason = ''speed_normal'', riskScore = Fin 0, details = VNull\<rparr>"
    using assms by (simp add: checkImpossibleSpeed_def Let_def)
  show "is_fin (riskScore (fst (assessChecks s newLocation
              [checkImpossibleSpeed hav s newLocation, checkLocationAccuracy newLocation,
               checkMovementPattern ar s newLocation, checkTeleportation hav s newLocation])))"
    by (rule assessChecks_refines_spec(2) [OF location_checks_fin location_checks_reason])
qed

theorem speed_check_equal_timestamps_witness:
  "locationHistory same_time_service \<noteq> []
   \<and> timestamp (last (locationHistory same_time_service)) = timestamp same_time_sample
   \<and> checkImpossibleSpeed haversine same_time_service same_time_sample =
           \<lparr>isSuspicious = False, reason = ''speed_normal'', riskScore = Fin 0, details = VNull\<rparr>"
  using speed_check_equal_timestamps [of same_time_service same_time_sample haversine]
  by (simp add: same_time_service_def same_time_sample_def teleport_prev_def)

section \<open>The effect of a location check on the service\<close>

text \<open>
  Claim C10. Every call of \<open>checkLocationValidity\<close> adds the sample at the end of the
  history, dropping the oldest entry when this makes more than 100, whatever the verdict;
  the four checks run on the service with the sample added; the tile exploration history
  is unchanged.
\<close>

theorem sample_enters_history:
  "locationHistory (snd (checkLocationValidity hav ar s newLocation))
     = (if length (locationHistory s @ [newLocation]) > 100 then tl (locationHistory s @ [newLocation])
        else locationHistory s @ [newLocation])
   \<and> last (locationHistory (snd (checkLocationValidity hav ar s newLocation))) = newLocation
   \<and> tileExplorationHistory (snd (checkLocationValidity hav ar s newLocation)) = tileExplorationHistory s
   \<and> checkLocationValidity hav ar s newLocation
       = assessChecks (addLocationToHistory s newLocation) newLocation
           [checkImpossibleSpeed hav (addLocationToHistory s newLocation) newLocation,
            checkLocationAccuracy newLocation,
            checkMovementPattern ar (addLocationToHistory s newLocation) newLocation,
            checkTeleportation hav (addLocationToHistory s newLocation) newLocation]"
proof -
  have "locationHistory (snd (checkLocationValidity hav ar s newLocation))
          = locationHistory (addLocationToHistory s newLocation)"
    by (rule checkLocationValidity_history)
  moreover have "tileExplorationHistory (snd (checkLocationValidity hav ar s newLocation)) = tileExplorationHistory s"
    by (simp add: checkLocationValidity_def Let_def assessChecks_frame addLocationToHistory_frame)
  ultimately show ?thesis
    by (simp add: addLocationToHistory_last checkLocationValidity_def Let_def)
       (simp add: addLocationToHistory_def MAX_HISTORY_def Let_def)
qed

section \<open>The range of the risk scores\<close>







subsection \<open>A speed score that is not an integer\<close>








section \<open>The exploration rate\<close>

lemma checkExplorationRate_tracker:
  "tileExplorationHistory (snd (checkExplorationRate s tid now)) =
     filter (\<lambda>r. now - 3600000 < tileTimestamp r)
            (tileExplorationHistory s @ [\<lparr>tileId = tid, tileTimestamp = now\<rparr>])"
  by (simp add: checkExplorationRate_def Let_def)

lemma checkExplorationRate_frame:
  "locationHistory (snd (checkExplorationRate s tid now)) = locationHistory s"
  by (simp add: checkExplorationRate_def Let_def)

lemma checkExplorationRate_result:
  "fst (checkExplorationRate s tid now) =
     (let recent = filter (\<lambda>r. now - 60000 < tileTimestamp r)
                     (filter (\<lambda>r. now - 3600000 < tileTimestamp r)
                        (tileExplorationHistory s @ [\<lparr>tileId = tid, tileTimestamp = now\<rparr>]))
      in if 8 < length recent
         then \<lparr>isSuspicious = True, reason = ''rapid_exploration'', riskScore = Fin 85,
                details = VObj [(''tilesPerMinute'', VNum (Fin (real (length recent)))),
                                (''threshold'', VNum (Fin 8))]\<rparr>
         else \<lparr>isSuspicious = False, reason = ''exploration_rate_normal'', riskScore = Fin 0,
                details = VNull\<rparr>)"
  by (simp add: checkExplorationRate_def Let_def RAPID_EXPLORATION_THRESHOLD_def)

lemma checkExplorationRate_tracked:
  "tracked (snd (checkExplorationRate s tid now)) =
     (let recent = filter (\<lambda>r. now - 60000 < tileTimestamp r)
                     (filter (\<lambda>r. now - 3600000 < tileTimestamp r)
                        (tileExplorationHistory s @ [\<lparr>tileId = tid, tileTimestamp = now\<rparr>]))
      in if 8 < length recent
         then tracked s @
           [\<lparr>suspiciousType = ''rapid_exploration'',
             callLocation = VObj [(''latitude'', VNum (Fin 0)), (''longitude'', VNum (Fin 0)),
                                  (''accuracy'', VNum (Fin 0))],
             callDetails = VObj [(''tiles_per_minute'', VNum (Fin (real (length recent)))),
                                 (''threshold'', VNum (Fin 8)),
                                 (''recent_tiles'', VArr (map (\<lambda>r. VStr (tileId r)) recent))]\<rparr>]
         else tracked s)"
  by (simp add: checkExplorationRate_def Let_def RAPID_EXPLORATION_THRESHOLD_def)

lemma discover_snoc:
  "discover s (calls @ [c]) = snd (checkExplorationRate (discover s calls) (fst c) (snd c))"
  by (simp add: discover_def case_prod_beta)

lemma discover_keeps_all:
  assumes "list_all (\<lambda>c. T - 60000 < snd c \<and> snd c \<le> T) calls"
  shows "tileExplorationHistory (discover newService calls) = map visit calls"
  using assms
proof (induction calls rule: rev_induct)
  case Nil
  then show ?case by (simp add: discover_def newService_def)
next
  case (snoc c calls)
  then have ih: "tileExplorationHistory (discover newService calls) = map visit calls"
    and c: "T - 60000 < snd c" "snd c \<le> T"
    and all: "\<forall>d \<in> set calls. T - 60000 < snd d"
    by (simp_all add: list_all_iff)
  have "\<forall>r \<in> set (map visit calls). snd c - 3600000 < tileTimestamp r"
    using all c by (auto simp: visit_def)
  then have "filter (\<lambda>r. snd c - 3600000 < tileTimestamp r) (map visit calls) = map visit calls"
    by (simp only: filter_True)
  then show ?case
    by (simp add: discover_snoc checkExplorationRate_tracker ih) (simp add: visit_def)
qed

lemma last_call_counts_all:
  assumes ne: "calls \<noteq> []"
    and win: "list_all (\<lambda>c. snd (last calls) - 60000 < snd c \<and> snd c \<le> snd (last calls)) calls"
  shows "filter (\<lambda>r. snd (last calls) - 60000 < tileTimestamp r)
           (filter (\<lambda>r. snd (last calls) - 3600000 < tileTimestamp r)
              (tileExplorationHistory (discover newService (butlast calls))
                 @ [\<lparr>tileId = fst (last calls), tileTimestamp = snd (last calls)\<rparr>]))
         = map visit calls"
proof -
  let ?T = "snd (last calls)"
  have "list_all (\<lambda>c. ?T - 60000 < snd c \<and> snd c \<le> ?T) (butlast calls)"
    using win by (auto simp: list_all_iff dest: in_set_butlastD)
  then have h: "tileExplorationHistory (discover newService (butlast calls)) = map visit (butlast calls)"
    by (rule discover_keeps_all)
  have app: "map visit (butlast calls) @ [\<lparr>tileId = fst (last calls), tileTimestamp = ?T\<rparr>] = map visit calls"
  proof -
    have "map visit calls = map visit (butlast calls @ [last calls])"
      using ne by simp
    then show ?thesis by (simp add: visit_def)
  qed
  have all: "\<forall>r \<in> set (map visit calls). ?T - 60000 < tileTimestamp r"
    using win by (auto simp: list_all_iff visit_def)
  then have f1: "filter (\<lambda>r. ?T - 60000 < tileTimestamp r) (map visit calls) = map visit calls"
    by (simp only: filter_True)
  have "\<forall>r \<in> set (map visit calls). ?T - 3600000 < tileTimestamp r"
    using all by auto
  then have f2: "filter (\<lambda>r. ?T - 3600000 < tileTimestamp r) (map visit calls) = map visit calls"
    by (simp only: filter_True)
  show ?thesis
    by (simp only: h app f1 f2)
qed

lemma nine_calls_props:
  "length nine_calls = 9"
  "list_all (\<lambda>c. snd (last nine_calls) - 60000 < snd c \<and> snd c \<le> snd (last nine_calls)) nine_calls"
  "last nine_calls = (''t9'', 8000)"
  by (simp_all add: nine_calls_def)

text \<open>
  Claim C7, as the code has it. A tile discovery pushes the tile with the current time,
  keeps the records newer than one hour, and counts the kept records newer than one
  minute. The result is suspicious, \<open>rapid_exploration\<close>, score 85, exactly when the count
  is above 8, and \<open>exploration_rate_normal\<close> otherwise. The details of a suspicious result
  hold the count and the threshold; the list of the recent tiles is passed to the
  analytics call only. Nine discoveries with all times in the last minute of the ninth,
  on a new service: the ninth result is suspicious with count 9.
\<close>

theorem exploration_rate_check:
  "(let kept = filter (\<lambda>r. now - 3600000 < tileTimestamp r)
                 (tileExplorationHistory s @ [\<lparr>tileId = tid, tileTimestamp = now\<rparr>]);
        recent = filter (\<lambda>r. now - 60000 < tileTimestamp r) kept;
        result = fst (checkExplorationRate s tid now);
        s' = snd (checkExplorationRate s tid now)
    in tileExplorationHistory s' = kept
       \<and> isSuspicious result = (8 < length recent)
       \<and> result =
           (if 8 < length recent
            then \<lparr>isSuspicious = True, reason = ''rapid_exploration'', riskScore = Fin 85,
                   details = VObj [(''tilesPerMinute'', VNum (Fin (real (length recent)))),
                                   (''threshold'', VNum (Fin 8))]\<rparr>
            else \<lparr>isSuspicious = False, reason = ''exploration_rate_normal'', riskScore = Fin 0,
                   details = VNull\<rparr>)
       \<and> tracked s' =
           (if 8 < length recent
            then tracked s @
              [\<lparr>suspiciousType = ''rapid_exploration'',
                callLocation = VObj [(''latitude'', VNum (Fin 0)), (''longitude'', VNum (Fin 0)),
                                     (''accuracy'', VNum (Fin 0))],
                callDetails = VObj [(''tiles_per_minute'', VNum (Fin (real (length recent)))),
                                    (''threshold'', VNum (Fin 8)),
                                    (''recent_tiles'', VArr (map (\<lambda>r. VStr (tileId r)) recent))]\<rparr>]
            else tracked s))
   \<and> (length calls = 9
        \<and> list_all (\<lambda>c. snd (last calls) - 60000 < snd c \<and> snd c \<le> snd (last calls)) calls
      \<longrightarrow> fst (checkExplorationRate (discover newService (butlast calls)) (fst (last calls)) (snd (last calls)))
            = \<lparr>isSuspicious = True, reason = ''rapid_exploration'', riskScore = Fin 85,
                details = VObj [(''tilesPerMinute'', VNum (Fin 9)), (''threshold'', VNum (Fin 8))]\<rparr>)"
proof (intro conjI impI)
  assume a: "length calls = 9
        \<and> list_all (\<lambda>c. snd (last calls) - 60000 < snd c \<and> snd c \<le> snd (last calls)) calls"
  then have ne: "calls \<noteq> []" by auto
  have "length (map visit calls) = 9" using a by simp
  then show "fst (checkExplorationRate (discover newService (butlast calls)) (fst (last calls)) (snd (last calls)))
            = \<lparr>isSuspicious = True, reason = ''rapid_exploration'', riskScore = Fin 85,
                details = VObj [(''tilesPerMinute'', VNum (Fin 9)), (''threshold'', VNum (Fin 8))]\<rparr>"
    unfolding checkExplorationRate_result last_call_counts_all [OF ne conjunct2 [OF a]]
    by (simp add: Let_def)
next
  show "(let kept = filter (\<lambda>r. now - 3600000 < tileTimestamp r)
                 (tileExplorationHistory s @ [\<lparr>tileId = tid, tileTimestamp = now\<rparr>]);
        recent = filter (\<lambda>r. now - 60000 < tileTimestamp r) kept;
        result = fst (checkExplorationRate s tid now);
        s' = snd (checkExplorationRate s tid now)
    in tileExplorationHistory s' = kept
       \<and> isSuspicious result = (8 < length recent)
       \<and> result =
           (if 8 < length recent
            then \<lparr>isSuspicious = True, reason = ''rapid_exploration'', riskScore = Fin 85,
                   details = VObj [(''tilesPerMinute'', VNum (Fin (real (length recent)))),
                                   (''threshold'', VNum (Fin 8))]\<rparr>
            else \<lparr>isSuspicious = False, reason = ''exploration_rate_normal'', riskScore = Fin 0,
                   details = VNull\<rparr>)
       \<and> tracked s' =
           (if 8 < length recent
            then tracked s @
              [\<lparr>suspiciousType = ''rapid_exploration'',
                callLocation = VObj [(''latitude'', VNum (Fin 0)), (''longitude'', VNum (Fin 0)),
                                     (''accuracy'', VNum (Fin 0))],
                callDetails = VObj [(''tiles_per_minute'', VNum (Fin (real (length recent)))),
                                    (''threshold'', VNum (Fin 8)),
                                    (''recent_tiles'', VArr (map (\<lambda>r. VStr (tileId r)) recent))]\<rparr>]
            else tracked s))"
    unfolding Let_def checkExplorationRate_tracker
    using checkExplorationRate_result [of s tid now] checkExplorationRate_tracked [of s tid now]
    by (simp add: Let_def)
qed

theorem exploration_rate_check_witness:
  "length nine_calls = 9
   \<and> list_all (\<lambda>c. snd (last nine_calls) - 60000 < snd c \<and> snd c \<le> snd (last nine_calls)) nine_calls
   \<and> fst (checkExplorationRate (discover newService (butlast nine_calls)) ''t9'' 8000)
       = \<lparr>isSuspicious = True, reason = ''rapid_exploration'', riskScore = Fin 85,
           details = VObj [(''tilesPerMinute'', VNum (Fin 9)), (''threshold'', VNum (Fin 8))]\<rparr>"
  using exploration_rate_check [of 0 newService "''t0''" nine_calls] nine_calls_props
  by simp

text \<open>
  Claim C7 as stated asks for the list of the recent tiles in the details of the result:
  after the nine discoveries no field of the details holds it.
\<close>

theorem exploration_details_counterexample:
  "\<not> details_include
       (details (fst (checkExplorationRate (discover newService (butlast nine_calls)) ''t9'' 8000)))
       (VArr (map (\<lambda>c. VStr (fst c)) nine_calls))"
proof -
  have ne: "nine_calls \<noteq> []" by (simp add: nine_calls_def)
  have "fst (checkExplorationRate (discover newService (butlast nine_calls)) (fst (last nine_calls)) (snd (last nine_calls)))
      = \<lparr>isSuspicious = True, reason = ''rapid_exploration'', riskScore = Fin 85,
          details = VObj [(''tilesPerMinute'', VNum (Fin (real (length (map visit nine_calls))))),
                          (''threshold'', VNum (Fin 8))]\<rparr>"
    unfolding checkExplorationRate_result last_call_counts_all [OF ne nine_calls_props(2)]
    by (simp add: Let_def nine_calls_props)
  then show ?thesis
    by (simp add: nine_calls_props details_include_def)
qed

section \<open>The pattern check\<close>

lemma feed_history_short:
  "length (locationHistory s @ xs) \<le> 100 \<Longrightarrow> locationHistory (feed hav ar s xs) = locationHistory s @ xs"
proof (induction xs arbitrary: s)
  case Nil
  then show ?case by (simp add: feed_def)
next
  case (Cons x xs)
  let ?s' = "snd (checkLocationValidity hav ar s x)"
  have h: "locationHistory ?s' = locationHistory s @ [x]"
    using Cons.prems by (simp add: checkLocationValidity_history addLocationToHistory_history MAX_HISTORY_def)
  then have "length (locationHistory ?s' @ xs) \<le> 100" using Cons.prems by simp
  then have "locationHistory (feed hav ar ?s' xs) = locationHistory ?s' @ xs" by (rule Cons.IH)
  then show ?case by (simp add: h feed_def)
qed

lemma checkMovementPattern_count:
  "checkMovementPattern ar s x =
     (if length (locationHistory s) < 5
      then \<lparr>isSuspicious = False, reason = ''insufficient_pattern_data'', riskScore = Fin 0, details = VNull\<rparr>
      else if 3 < duplicate_count ar s x
      then \<lparr>isSuspicious = True, reason = ''identical_coordinates'', riskScore = Fin 70,
             details = VObj [(''duplicate_count'', VNum (Fin (real (duplicate_count ar s x)))),
                             (''coordinate'', coordinate_str (latitude x) (longitude x))]\<rparr>
      else \<lparr>isSuspicious = False, reason = ''pattern_normal'', riskScore = Fin 0, details = VNull\<rparr>)"
  by (simp add: checkMovementPattern_def Let_def duplicate_count_def near_identical_def [abs_def]
      differ_less_def)

text \<open>
  The literal is the number of the machine nearest to 0.000001: a 53-bit integer over
  \<open>2 ^ 72\<close>, less than half a unit of that grid below 0.000001.
\<close>

lemma LIT_0_000001_nearest:
  "0 < LIT_0_000001" "LIT_0_000001 < 1 / 1000000" "1 / 1000000 - LIT_0_000001 < 1 / 2 ^ 73"
  "LIT_0_000001 * 2 ^ 72 = 4722366482869645" "(2::real) ^ 52 \<le> 4722366482869645"
  "(4722366482869645::real) < 2 ^ 53"
  by (simp_all add: LIT_0_000001_def)

lemma same_coordinates_near_identical:
  assumes "fl ar 0 = Fin 0" and "latitude p = latitude x" and "longitude p = longitude x"
  shows "near_identical ar x p"
  using assms LIT_0_000001_nearest(1)
  by (simp add: near_identical_def differ_less_def fl_sub_def)

lemma five_identical:
  assumes z: "fl ar 0 = Fin 0"
    and a: "list_all (\<lambda>p. latitude p = 1 \<and> longitude p = 1) [p1, p2, p3, p4, p5]"
  shows "locationHistory (addLocationToHistory (feed hav ar newService [p1, p2, p3, p4]) p5) = [p1, p2, p3, p4, p5]"
    and "duplicate_count ar (addLocationToHistory (feed hav ar newService [p1, p2, p3, p4]) p5) p5 = 5"
proof -
  have "locationHistory (feed hav ar newService [p1, p2, p3, p4]) = locationHistory newService @ [p1, p2, p3, p4]"
    by (rule feed_history_short) (simp add: newService_def)
  then show h: "locationHistory (addLocationToHistory (feed hav ar newService [p1, p2, p3, p4]) p5) = [p1, p2, p3, p4, p5]"
    by (simp add: addLocationToHistory_history newService_def MAX_HISTORY_def)
  have "near_identical ar p5 p" if "p \<in> set [p1, p2, p3, p4, p5]" for p
    using that a by (intro same_coordinates_near_identical [OF z]) auto
  then have "\<forall>p \<in> set [p1, p2, p3, p4, p5]. near_identical ar p5 p" by blast
  then have "filter (near_identical ar p5) [p1, p2, p3, p4, p5] = [p1, p2, p3, p4, p5]"
    by (rule filter_True)
  then show "duplicate_count ar (addLocationToHistory (feed hav ar newService [p1, p2, p3, p4]) p5) p5 = 5"
    by (simp add: duplicate_count_def h)
qed

lemma five_identical_result:
  assumes z: "fl ar 0 = Fin 0"
    and a: "list_all (\<lambda>p. latitude p = 1 \<and> longitude p = 1) [p1, p2, p3, p4, p5]"
  shows "checkMovementPattern ar (addLocationToHistory (feed hav ar newService [p1, p2, p3, p4]) p5) p5 =
          \<lparr>isSuspicious = True, reason = ''identical_coordinates'', riskScore = Fin 70,
            details = VObj [(''duplicate_count'', VNum (Fin 5)), (''coordinate'', coordinate_str 1 1)]\<rparr>"
  using a by (simp add: checkMovementPattern_count five_identical [OF z a])

text \<open>
  Claim C5, as the code has it by design. The pattern check answers
  \<open>insufficient_pattern_data\<close> when the history it reads has fewer than 5 entries;
  otherwise it counts the entries of that history whose latitude and longitude each
  differ from the sample's by less than 0.000001 degrees (the rounded difference against
  the literal), and is suspicious, \<open>identical_coordinates\<close>, score 70, with the count in its
  details, exactly when the count is above 3. What the count is in the five-sample
  scenario depends on the sample being in the history when the check runs, and is left
  out.
\<close>

theorem pattern_check_counts_history:
  "(length (locationHistory s) < 5 \<longrightarrow>
      checkMovementPattern ar s x =
        \<lparr>isSuspicious = False, reason = ''insufficient_pattern_data'', riskScore = Fin 0, details = VNull\<rparr>)
   \<and> (5 \<le> length (locationHistory s) \<longrightarrow>
        isSuspicious (checkMovementPattern ar s x) = (3 < duplicate_count ar s x)
        \<and> checkMovementPattern ar s x =
            (if 3 < duplicate_count ar s x
             then \<lparr>isSuspicious = True, reason = ''identical_coordinates'', riskScore = Fin 70,
                    details = VObj [(''duplicate_count'', VNum (Fin (real (duplicate_count ar s x)))),
                                    (''coordinate'', coordinate_str (latitude x) (longitude x))]\<rparr>
             else \<lparr>isSuspicious = False, reason = ''pattern_normal'', riskScore = Fin 0, details = VNull\<rparr>))"
proof (intro conjI impI)
  assume "length (locationHistory s) < 5"
  then show "checkMovementPattern ar s x =
        \<lparr>isSuspicious = False, reason = ''insufficient_pattern_data'', riskScore = Fin 0, details = VNull\<rparr>"
    by (simp add: checkMovementPattern_count)
next
  assume "5 \<le> length (locationHistory s)"
  then show "isSuspicious (checkMovementPattern ar s x) = (3 < duplicate_count ar s x)"
    by (simp add: checkMovementPattern_count)
next
  assume "5 \<le> length (locationHistory s)"
  then show "checkMovementPattern ar s x =
            (if 3 < duplicate_count ar s x
             then \<lparr>isSuspicious = True, reason = ''identical_coordinates'', riskScore = Fin 70,
                    details = VObj [(''duplicate_count'', VNum (Fin (real (duplicate_count ar s x)))),
                                    (''coordinate'', coordinate_str (latitude x) (longitude x))]\<rparr>
             else \<lparr>isSuspicious = False, reason = ''pattern_normal'', riskScore = Fin 0, details = VNull\<rparr>)"
    by (simp add: checkMovementPattern_count)
qed

theorem pattern_check_counts_history_witness:
  "length (locationHistory newService) < 5
   \<and> checkMovementPattern exact newService (dup_sample 1) =
        \<lparr>isSuspicious = False, reason = ''insufficient_pattern_data'', riskScore = Fin 0, details = VNull\<rparr>
   \<and> 5 \<le> length (locationHistory dup_service)
   \<and> duplicate_count exact dup_service (dup_sample 5) = 5
   \<and> checkMovementPattern exact dup_service (dup_sample 5) =
        \<lparr>isSuspicious = True, reason = ''identical_coordinates'', riskScore = Fin 70,
          details = VObj [(''duplicate_count'', VNum (Fin 5)), (''coordinate'', coordinate_str 1 1)]\<rparr>"
proof -
  have z: "fl exact 0 = Fin 0" by (simp add: exact_def)
  have "near_identical exact (dup_sample 5) p"
    if "p \<in> set [dup_sample 1, dup_sample 2, dup_sample 3, dup_sample 4, dup_sample 5]" for p
    using that by (intro same_coordinates_near_identical [OF z]) (auto simp: dup_sample_def)
  then have "\<forall>p \<in> set [dup_sample 1, dup_sample 2, dup_sample 3, dup_sample 4, dup_sample 5].
               near_identical exact (dup_sample 5) p"
    by blast
  then have "filter (near_identical exact (dup_sample 5))
               [dup_sample 1, dup_sample 2, dup_sample 3, dup_sample 4, dup_sample 5]
             = [dup_sample 1, dup_sample 2, dup_sample 3, dup_sample 4, dup_sample 5]"
    by (rule filter_True)
  then have d: "duplicate_count exact dup_service (dup_sample 5) = 5"
    by (simp add: duplicate_count_def dup_service_def)
  have n: "length (locationHistory newService) < 5" "5 \<le> length (locationHistory dup_service)"
    by (simp_all add: newService_def dup_service_def)
  have c: "latitude (dup_sample 5) = 1" "longitude (dup_sample 5) = 1"
    by (simp_all add: dup_sample_def)
  show ?thesis
    using pattern_check_counts_history [of newService exact "dup_sample 1"]
          pattern_check_counts_history [of dup_service exact "dup_sample 5"] d n
    by (simp add: c)
qed

text \<open>
  Claim C5 as stated gives the duplicate count 4 for the fifth of five evaluations at
  (1.0, 1.0) on a new service. Every difference of coordinates is then exactly 0, and
  the count in the details is not 4 (it is 5).
\<close>

theorem duplicate_count_counterexample:
  "\<not> (js_field (details (checkMovementPattern exact
         (addLocationToHistory (feed haversine exact newService [dup_sample 1, dup_sample 2, dup_sample 3, dup_sample 4])
            (dup_sample 5)) (dup_sample 5))) ''duplicate_count'' = Some (VNum (Fin 4)))"
proof -
  have z: "fl exact 0 = Fin 0" by (simp add: exact_def)
  have l: "list_all (\<lambda>p. latitude p = 1 \<and> longitude p = 1)
        [dup_sample 1, dup_sample 2, dup_sample 3, dup_sample 4, dup_sample 5]"
    by (simp add: dup_sample_def)
  show ?thesis
    using five_identical_result [OF z l, of haversine] by (simp add: js_field_def)
qed

section \<open>The automation check\<close>

text \<open>
  The literals 0.0001 and 0.001 are the numbers of the machine nearest to them: 53-bit
  integers over \<open>2 ^ 66\<close> and \<open>2 ^ 62\<close>, less than half a unit of those grids above them.
\<close>

lemma LIT_0_0001_nearest:
  "1 / 10000 < LIT_0_0001" "LIT_0_0001 - 1 / 10000 < 1 / 2 ^ 67"
  "LIT_0_0001 * 2 ^ 66 = 7378697629483821" "(2::real) ^ 52 \<le> 7378697629483821"
  "(7378697629483821::real) < 2 ^ 53"
  by (simp_all add: LIT_0_0001_def)

lemma LIT_0_001_nearest:
  "1 / 1000 < LIT_0_001" "LIT_0_001 - 1 / 1000 < 1 / 2 ^ 63"
  "LIT_0_001 * 2 ^ 62 = 4611686018427388" "(2::real) ^ 52 \<le> 4611686018427388"
  "(4611686018427388::real) < 2 ^ 53"
  by (simp_all add: LIT_0_001_def)

lemma consecutive_pairs:
  "map (\<lambda>i. f (w ! (i - 1)) (w ! i)) [1..<length w] = map (\<lambda>(a, b). f a b) (zip w (tl w))"
proof (rule nth_equalityI)
  show "length (map (\<lambda>i. f (w ! (i - 1)) (w ! i)) [1..<length w]) = length (map (\<lambda>(a, b). f a b) (zip w (tl w)))"
    by simp
next
  fix i
  assume "i < length (map (\<lambda>i. f (w ! (i - 1)) (w ! i)) [1..<length w])"
  then have i: "i < length w - 1" by simp
  then have "tl w ! i = w ! Suc i" by (simp add: nth_tl)
  with i show "map (\<lambda>i. f (w ! (i - 1)) (w ! i)) [1..<length w] ! i = map (\<lambda>(a, b). f a b) (zip w (tl w)) ! i"
    by simp
qed

lemma foldl_over_map: "foldl (\<lambda>sum v. g sum (h v)) a xs = foldl g a (map h xs)"
  by (induction xs arbitrary: a) simp_all

lemma six_elements:
  "6 \<le> length w \<Longrightarrow> \<exists>a b c d e f r. w = a # b # c # d # e # f # r"
  by (auto simp: Suc_le_length_iff eval_nat_numeral)

lemma detectRepetitivePattern_spec:
  assumes "6 \<le> length w"
  shows "detectRepetitivePattern ar w = spec_repetitiveMovement ar w"
proof -
  obtain a b c d e f r where w: "w = a # b # c # d # e # f # r"
    using six_elements [OF assms] by blast
  show ?thesis
    by (simp add: w detectRepetitivePattern_def spec_repetitiveMovement_def differ_less_def Let_def
        eval_nat_numeral)
qed

lemma analyzeMovementPatterns_spec:
  "analyzeMovementPatterns hav ar s =
     (let w = spec_window (locationHistory s)
      in \<lparr>perfectTiming = spec_perfectTiming ar w,
          unnaturalPrecision = spec_unnaturalPrecision hav w,
          repetitiveMovement = detectRepetitivePattern ar w,
          averageInterval = spec_mean ar (spec_intervals ar w),
          intervalVariance = spec_variance ar (spec_intervals ar w)\<rparr>)"
proof -
  let ?w = "spec_window (locationHistory s)"
  have iv: "map (\<lambda>i. fl_sub ar (Fin (timestamp (?w ! i))) (Fin (timestamp (?w ! (i - 1))))) [1..<length ?w]
            = spec_intervals ar ?w"
    using consecutive_pairs [of "\<lambda>a b. fl_sub ar (Fin (timestamp b)) (Fin (timestamp a))" ?w]
    by (simp add: spec_intervals_def)
  have ds: "map (\<lambda>i. hav (latitude (?w ! (i - 1))) (longitude (?w ! (i - 1)))
                          (latitude (?w ! i)) (longitude (?w ! i))) [1..<length ?w]
            = spec_distances hav ?w"
    using consecutive_pairs [of "\<lambda>a b. hav (latitude a) (longitude a) (latitude b) (longitude b)" ?w]
    by (simp add: spec_distances_def)
  have avg: "fl_div ar (foldl (\<lambda>a b. fl_add ar a b) (Fin 0) (spec_intervals ar ?w))
                       (Fin (real (length (spec_intervals ar ?w))))
             = spec_mean ar (spec_intervals ar ?w)"
    by (simp add: spec_mean_def)
  have var: "fl_div ar (foldl (\<lambda>sum interval. fl_add ar sum (pow2 ar (fl_sub ar interval
                        (spec_mean ar (spec_intervals ar ?w))))) (Fin 0) (spec_intervals ar ?w))
                    (Fin (real (length (spec_intervals ar ?w))))
             = spec_variance ar (spec_intervals ar ?w)"
    unfolding spec_variance_def
    by (simp add: spec_mean_def [of ar "map f xs" for f xs]
        foldl_over_map [of "fl_add ar" "\<lambda>v. pow2 ar (fl_sub ar v (spec_mean ar (spec_intervals ar ?w)))"
          "Fin 0" "spec_intervals ar ?w", symmetric])
  show ?thesis
    unfolding analyzeMovementPatterns_def Let_def spec_window_def [symmetric] iv ds avg var
    by (simp add: spec_perfectTiming_def spec_unnaturalPrecision_def)
qed

text \<open>
  Claim C9. With fewer than 10 samples in the history the automation check answers not
  suspicious, \<open>insufficient_data\<close>. Otherwise it analyses the window of the most recent 20
  samples (fewer when the history is shorter) and answers suspicious,
  \<open>automation_detected\<close>, score 95, exactly when the timing is perfect, the precision is
  unnatural or the movement is repetitive, and not suspicious, \<open>human_behavior\<close>,
  otherwise; in both cases the details hold the three flags, the mean interval and the
  variance of the intervals. The statistics are those of the rounded arithmetic, whatever
  the rounding.
\<close>

theorem automation_check_refines_spec:
  "(length (locationHistory s) < 10 \<longrightarrow>
      checkAutomationPattern hav ar s =
        \<lparr>isSuspicious = False, reason = ''insufficient_data'', riskScore = Fin 0, details = VNull\<rparr>)
   \<and> (10 \<le> length (locationHistory s) \<longrightarrow>
       (let w = spec_window (locationHistory s);
            flagged = (spec_perfectTiming ar w \<or> spec_unnaturalPrecision hav w \<or> spec_repetitiveMovement ar w);
            stats = VObj [(''perfectTiming'', VBool (spec_perfectTiming ar w)),
                          (''unnaturalPrecision'', VBool (spec_unnaturalPrecision hav w)),
                          (''repetitiveMovement'', VBool (spec_repetitiveMovement ar w)),
                          (''averageInterval'', VNum (spec_mean ar (spec_intervals ar w))),
                          (''intervalVariance'', VNum (spec_variance ar (spec_intervals ar w)))]
        in length w = min 20 (length (locationHistory s))
           \<and> checkAutomationPattern hav ar s =
               (if flagged
                then \<lparr>isSuspicious = True, reason = ''automation_detected'', riskScore = Fin 95, details = stats\<rparr>
                else \<lparr>isSuspicious = False, reason = ''human_behavior'', riskScore = Fin 0, details = stats\<rparr>)))"
proof (intro conjI impI)
  assume "length (locationHistory s) < 10"
  then show "checkAutomationPattern hav ar s =
        \<lparr>isSuspicious = False, reason = ''insufficient_data'', riskScore = Fin 0, details = VNull\<rparr>"
    by (simp add: checkAutomationPattern_def)
next
  assume ten: "10 \<le> length (locationHistory s)"
  let ?w = "spec_window (locationHistory s)"
  have len: "length ?w = min 20 (length (locationHistory s))"
    by (simp add: spec_window_def min_def)
  then have "6 \<le> length ?w" using ten by simp
  then have rep: "detectRepetitivePattern ar ?w = spec_repetitiveMovement ar ?w"
    by (rule detectRepetitivePattern_spec)
  have "\<not> length (locationHistory s) < 10" using ten by simp
  then show "let w = spec_window (locationHistory s);
            flagged = (spec_perfectTiming ar w \<or> spec_unnaturalPrecision hav w \<or> spec_repetitiveMovement ar w);
            stats = VObj [(''perfectTiming'', VBool (spec_perfectTiming ar w)),
                          (''unnaturalPrecision'', VBool (spec_unnaturalPrecision hav w)),
                          (''repetitiveMovement'', VBool (spec_repetitiveMovement ar w)),
                          (''averageInterval'', VNum (spec_mean ar (spec_intervals ar w))),
                          (''intervalVariance'', VNum (spec_variance ar (spec_intervals ar w)))]
        in length w = min 20 (length (locationHistory s))
           \<and> checkAutomationPattern hav ar s =
               (if flagged
                then \<lparr>isSuspicious = True, reason = ''automation_detected'', riskScore = Fin 95, details = stats\<rparr>
                else \<lparr>isSuspicious = False, reason = ''human_behavior'', riskScore = Fin 0, details = stats\<rparr>)"
    unfolding Let_def
    by (simp add: len checkAutomationPattern_def analyzeMovementPatterns_spec Let_def rep
        patterns_val_def)
qed

text \<open>
  Ten samples at one place, one per second: every operation has an exact result that is
  a number of the machine (the intervals are 1000, their partial sums at most 9000, the
  mean is 1000, the deviations and their squares are 0).
\<close>

theorem automation_check_refines_spec_witness:
  "length (locationHistory newService) < 10
   \<and> checkAutomationPattern haversine exact newService =
        \<lparr>isSuspicious = False, reason = ''insufficient_data'', riskScore = Fin 0, details = VNull\<rparr>
   \<and> 10 \<le> length (locationHistory auto_service)
   \<and> checkAutomationPattern haversine exact auto_service =
        \<lparr>isSuspicious = True, reason = ''automation_detected'', riskScore = Fin 95,
          details = VObj [(''perfectTiming'', VBool True),
                          (''unnaturalPrecision'', VBool False),
                          (''repetitiveMovement'', VBool True),
                          (''averageInterval'', VNum (Fin 1000)),
                          (''intervalVariance'', VNum (Fin 0))]\<rparr>"
proof -
  have n: "length (locationHistory newService) < 10" "10 \<le> length (locationHistory auto_service)"
    by (simp_all add: newService_def auto_service_def)
  have w: "spec_window (locationHistory auto_service) = locationHistory auto_service"
    by (simp add: spec_window_def auto_service_def)
  have iv: "spec_intervals exact (locationHistory auto_service)
              = [Fin 1000, Fin 1000, Fin 1000, Fin 1000, Fin 1000, Fin 1000, Fin 1000, Fin 1000, Fin 1000]"
    by (simp add: spec_intervals_def auto_service_def auto_sample_def fl_sub_def exact_def)
  have mean: "spec_mean exact [Fin 1000, Fin 1000, Fin 1000, Fin 1000, Fin 1000, Fin 1000, Fin 1000, Fin 1000, Fin 1000]
                = Fin 1000"
    by (simp add: spec_mean_def fl_add_def fl_div_def exact_def)
  have var: "spec_variance exact [Fin 1000, Fin 1000, Fin 1000, Fin 1000, Fin 1000, Fin 1000, Fin 1000, Fin 1000, Fin 1000]
                = Fin 0"
    by (simp add: spec_variance_def mean) (simp add: spec_mean_def fl_add_def fl_sub_def fl_div_def exact_def js_pow2_def)
  have pt: "spec_perfectTiming exact (locationHistory auto_service)"
    by (simp add: spec_perfectTiming_def iv var)
  have up: "\<not> spec_unnaturalPrecision haversine (locationHistory auto_service)"
    by (simp add: spec_unnaturalPrecision_def spec_distances_def auto_service_def auto_sample_def haversine_same)
  have rm: "spec_repetitiveMovement exact (locationHistory auto_service)"
    by (simp add: spec_repetitiveMovement_def differ_less_def auto_service_def auto_sample_def
        fl_sub_def exact_def LIT_0_0001_def)
  show ?thesis
    using automation_check_refines_spec [of newService haversine exact]
          automation_check_refines_spec [of auto_service haversine exact] n
    by (simp add: Let_def w iv mean var pt up rm)
qed

end
